theory Spec2Isabelle
  imports Main
begin

section \<open>Python text\<close>

text \<open>
  Text is a list of characters. A character stands for one code point in the range
  0..255, so \<open>length\<close> counts code points as Python's \<open>len\<close> does on such text.
  Code points above 255 are outside this development, and so are JSON numbers with a
  fraction or an exponent and asynchronous interrupts.
\<close>

definition isspace :: "char \<Rightarrow> bool" where
  \<comment> \<open>\<open>str.isspace\<close> on one character; the same set is the regular expression class \<open>\s\<close>.\<close>
  "isspace c =
     (let n = (of_char c :: nat)
      in (9 \<le> n \<and> n \<le> 13) \<or> (28 \<le> n \<and> n \<le> 32) \<or> n = 133 \<or> n = 160)"

definition lower_char :: "char \<Rightarrow> char" where
  "lower_char c =
     (let n = (of_char c :: nat)
      in if (65 \<le> n \<and> n \<le> 90) \<or> (192 \<le> n \<and> n \<le> 222 \<and> n \<noteq> 215)
         then char_of (n + 32) else c)"

definition lower :: "string \<Rightarrow> string" where
  \<comment> \<open>\<open>str.lower()\<close>\<close>
  "lower s = map lower_char s"

definition strip :: "string \<Rightarrow> string" where
  \<comment> \<open>\<open>str.strip()\<close>: leading and trailing whitespace removed\<close>
  "strip s = rev (dropWhile isspace (rev (dropWhile isspace s)))"

fun startswith :: "string \<Rightarrow> string \<Rightarrow> bool" where
  \<comment> \<open>\<open>s.startswith(p)\<close>, the text first\<close>
  "startswith s [] = True"
| "startswith [] (p # ps) = False"
| "startswith (x # xs) (p # ps) = (x = p \<and> startswith xs ps)"

fun contains :: "string \<Rightarrow> string \<Rightarrow> bool" where
  \<comment> \<open>\<open>p in s\<close>, the text first\<close>
  "contains [] p = (p = [])"
| "contains (x # xs) p = (startswith (x # xs) p \<or> contains xs p)"

section \<open>The danger patterns\<close>

text \<open>
  The eight patterns of \<open>_is_safe\<close> are sequences of single-character atoms, each taken
  once, one or more times (\<open>+\<close>) or any number of times (\<open>*\<close>). \<open>re.search\<close> is asked only
  whether a match exists, so greediness plays no role: a match exists iff some suffix of
  the text has a prefix in the pattern's language.
\<close>

datatype atom =
    Ch char  \<comment> \<open>a literal, compared ignoring case (\<open>re.IGNORECASE\<close>)\<close>
  | Sp       \<comment> \<open>\<open>\s\<close>\<close>
  | Dot      \<comment> \<open>\<open>.\<close> without \<open>re.DOTALL\<close>: anything but a newline\<close>

datatype quant = One | Plus | Star

type_synonym regex = "(atom \<times> quant) list"

fun accepts :: "atom \<Rightarrow> char \<Rightarrow> bool" where
  "accepts (Ch c) x = (lower_char x = lower_char c)"
| "accepts Sp x = isspace x"
| "accepts Dot x = (x \<noteq> CHR 0x0A)"

function match_here :: "regex \<Rightarrow> string \<Rightarrow> bool" where
  "match_here [] s = True"
| "match_here ((a, One) # r) [] = False"
| "match_here ((a, One) # r) (x # xs) = (accepts a x \<and> match_here r xs)"
| "match_here ((a, Plus) # r) [] = False"
| "match_here ((a, Plus) # r) (x # xs) = (accepts a x \<and> match_here ((a, Star) # r) xs)"
| "match_here ((a, Star) # r) [] = match_here r []"
| "match_here ((a, Star) # r) (x # xs) =
     (match_here r (x # xs) \<or> (accepts a x \<and> match_here ((a, Star) # r) xs))"
  by pat_completeness auto
termination
  by (relation "measure (\<lambda>(r, s). 2 * length s + length r)") auto

fun re_search :: "regex \<Rightarrow> string \<Rightarrow> bool" where
  \<comment> \<open>\<open>re.search(pattern, s, re.IGNORECASE)\<close> is not \<open>None\<close>\<close>
  "re_search r [] = match_here r []"
| "re_search r (x # xs) = (match_here r (x # xs) \<or> re_search r xs)"

definition lit :: "string \<Rightarrow> regex" where
  "lit s = map (\<lambda>c. (Ch c, One)) s"

definition danger_patterns :: "regex list" where
  "danger_patterns =
     [ lit ''rm'' @ [(Sp, Plus)] @ lit ''-rf'' @ [(Sp, Plus)],
       lit ''dd'' @ [(Sp, Plus)] @ lit ''if='',
       lit ''>'' @ [(Sp, Star)] @ lit ''/dev/sd'',
       lit ''chmod'' @ [(Sp, Plus)] @ lit ''777'' @ [(Sp, Plus)],
       lit '':(){'' @ [(Dot, Star)] @ lit '';};'',
       lit ''mv'' @ [(Sp, Plus)] @ lit ''/'' @ [(Sp, Star)],
       lit ''fdisk'' @ [(Sp, Plus)] @ lit ''/dev/'',
       lit ''format'' @ [(Sp, Plus)] ]"

definition dangerous :: "string \<Rightarrow> bool" where
  \<comment> \<open>the loop over \<open>danger_patterns\<close> in \<open>_is_safe\<close> finds a match\<close>
  "dangerous command = list_ex (\<lambda>p. re_search p command) danger_patterns"

section \<open>Configuration values\<close>

datatype json =
    JNull
  | JBool bool
  | JInt int
  | JStr string
  | JArr "json list"
  | JObj "(string \<times> json) list"

datatype exn =
    KeyError string
  | TypeError string
  | IndexError
  | EOFError

definition quoted :: "string \<Rightarrow> string" where
  "quoted s = [CHR 0x27] @ s @ [CHR 0x27]"

fun str_exn :: "exn \<Rightarrow> string" where
  \<comment> \<open>\<open>str(e)\<close>\<close>
  "str_exn (KeyError k) = quoted k"
| "str_exn (TypeError m) = m"
| "str_exn IndexError = ''list index out of range''"
| "str_exn EOFError = ''EOF when reading a line''"

fun type_name :: "json \<Rightarrow> string" where
  "type_name JNull = ''NoneType''"
| "type_name (JBool b) = ''bool''"
| "type_name (JInt i) = ''int''"
| "type_name (JStr s) = ''str''"
| "type_name (JArr xs) = ''list''"
| "type_name (JObj kvs) = ''dict''"

fun getitem :: "json \<Rightarrow> string \<Rightarrow> exn + json" where
  \<comment> \<open>\<open>d[k]\<close> for a text key \<open>k\<close>; the messages are the interpreter's, in the
      wording of Python 3.10\<close>
  "getitem (JObj kvs) k = (case map_of kvs k of None \<Rightarrow> Inl (KeyError k) | Some v \<Rightarrow> Inr v)"
| "getitem (JArr xs) k = Inl (TypeError ''list indices must be integers or slices, not str'')"
| "getitem (JStr s) k = Inl (TypeError ''string indices must be integers'')"
| "getitem v k = Inl (TypeError (quoted (type_name v) @ '' object is not subscriptable''))"

definition cfg :: "json \<Rightarrow> string \<Rightarrow> string \<Rightarrow> exn + json" where
  \<comment> \<open>\<open>self.config[section][key]\<close>\<close>
  "cfg c section key = (case getitem c section of Inl e \<Rightarrow> Inl e | Inr d \<Rightarrow> getitem d key)"

fun truthy :: "json \<Rightarrow> bool" where
  \<comment> \<open>the truth value Python gives a value in \<open>if v:\<close>\<close>
  "truthy JNull = False"
| "truthy (JBool b) = b"
| "truthy (JInt i) = (i \<noteq> 0)"
| "truthy (JStr s) = (s \<noteq> [])"
| "truthy (JArr xs) = (xs \<noteq> [])"
| "truthy (JObj kvs) = (kvs \<noteq> [])"

fun as_int :: "json \<Rightarrow> int option" where
  \<comment> \<open>a value that works as an integer: integers, and the booleans as 0 and 1\<close>
  "as_int (JInt i) = Some i"
| "as_int (JBool b) = Some (if b then 1 else 0)"
| "as_int v = None"

definition add_one :: "json \<Rightarrow> exn + int" where
  \<comment> \<open>\<open>v + 1\<close>\<close>
  "add_one v =
     (case v of
        JInt i \<Rightarrow> Inr (i + 1)
      | JBool b \<Rightarrow> Inr ((if b then 1 else 0) + 1)
      | JStr x \<Rightarrow> Inl (TypeError (''can only concatenate str (not '' @ [CHR 0x22] @ ''int''
                                   @ [CHR 0x22] @ '') to str''))
      | JArr x \<Rightarrow> Inl (TypeError (''can only concatenate list (not '' @ [CHR 0x22] @ ''int''
                                   @ [CHR 0x22] @ '') to list''))
      | _ \<Rightarrow> Inl (TypeError (''unsupported operand type(s) for +: '' @ quoted (type_name v)
                              @ '' and '' @ quoted ''int'')))"

definition len_gt :: "nat \<Rightarrow> json \<Rightarrow> exn + bool" where
  \<comment> \<open>\<open>len(xs) > v\<close>, given the length\<close>
  "len_gt n v =
     (case as_int v of
        Some i \<Rightarrow> Inr (int n > i)
      | None \<Rightarrow> Inl (TypeError (quoted ''>'' @ '' not supported between instances of ''
                                 @ quoted ''int'' @ '' and '' @ quoted (type_name v))))"

definition slice_from :: "'a list \<Rightarrow> int \<Rightarrow> 'a list" where
  \<comment> \<open>\<open>xs[k:]\<close>: a negative \<open>k\<close> counts from the end\<close>
  "slice_from xs k = drop (if k < 0 then nat (int (length xs) + k) else nat k) xs"

definition slice_to :: "'a list \<Rightarrow> int \<Rightarrow> 'a list" where
  \<comment> \<open>\<open>xs[:k]\<close>: a negative \<open>k\<close> counts from the end\<close>
  "slice_to xs k = take (if k < 0 then nat (int (length xs) + k) else nat k) xs"

section \<open>Numbers as text\<close>

definition digit :: "nat \<Rightarrow> char" where
  "digit d = char_of (48 + d)"

function show_nat :: "nat \<Rightarrow> string" where
  "show_nat n = (if n < 10 then [digit n] else show_nat (n div 10) @ [digit (n mod 10)])"
  by pat_completeness auto
termination
  by (relation "measure id") auto

declare show_nat.simps [simp del]

definition show_int :: "int \<Rightarrow> string" where
  \<comment> \<open>\<open>str(i)\<close>\<close>
  "show_int i = (if i < 0 then ''-'' @ show_nat (nat (- i)) else show_nat (nat i))"

definition show_bool :: "bool \<Rightarrow> string" where
  "show_bool b = (if b then ''True'' else ''False'')"

fun join :: "string \<Rightarrow> string list \<Rightarrow> string" where
  \<comment> \<open>\<open>sep.join(xs)\<close>\<close>
  "join sep [] = []"
| "join sep [x] = x"
| "join sep (x # y # ys) = x @ sep @ join sep (y # ys)"

section \<open>The assistant and its collaborators\<close>

datatype turn = Turn (role: string) (content: string)

record assistant =
  "context" :: "turn list"
  safety_checks :: bool
  config :: json
  is_wsl :: bool
  is_root :: bool
  user_name :: string
  session_start :: string

text \<open>
  What the collaborators would do if the assistant called them: the human at the
  confirmation prompt, the shell, the model endpoint and the platform description.
\<close>

datatype input_outcome = Line string | EndOfInput

datatype run_outcome =
    Completed string string int  \<comment> \<open>stdout, stderr, returncode\<close>
  | TimeoutExpired
  | RunRaises string             \<comment> \<open>any other exception, with its \<open>str\<close>\<close>

datatype api_outcome =
    Content string               \<comment> \<open>\<open>response.json()["message"]["content"]\<close>, a text\<close>
  | ApiRaises string             \<comment> \<open>any exception of the request or of reading the reply\<close>

record env =
  stdin :: "string \<Rightarrow> input_outcome"                  \<comment> \<open>by the command shown\<close>
  subprocess_run :: "string \<Rightarrow> json \<Rightarrow> run_outcome"  \<comment> \<open>by command and timeout\<close>
  requests_post :: "json \<Rightarrow> turn list \<Rightarrow> json \<Rightarrow> api_outcome"
     \<comment> \<open>by endpoint, messages and timeout\<close>
  platform :: string

datatype event =
    Print string
  | Input string
  | Run string json
  | Post json "turn list" json
  | LogInfo string
  | LogError string

section \<open>The conversation store\<close>

definition add_to_history :: "assistant \<Rightarrow> string \<Rightarrow> string \<Rightarrow> (exn + unit) \<times> assistant" where
  "add_to_history s r c =
     (let ctx = context s @ [Turn r c];
          s1 = s\<lparr>context := ctx\<rparr>
      in case cfg (config s) ''context'' ''memory_size'' of
           Inl e \<Rightarrow> (Inl e, s1)
         | Inr ms \<Rightarrow>
             (case add_one ms of
                Inl e \<Rightarrow> (Inl e, s1)
              | Inr bound \<Rightarrow>
                  if int (length ctx) > bound
                  then (case ctx of
                          [] \<Rightarrow> (Inl IndexError, s1)
                        | first # _ \<Rightarrow>
                            (case as_int ms of
                               None \<Rightarrow> (Inl (TypeError (''bad operand type for unary -: ''
                                                        @ quoted (type_name ms))), s1)
                             | Some m \<Rightarrow>
                                 (Inr (), s1\<lparr>context := [first] @ slice_from ctx (- m)\<rparr>)))
                  else (Inr (), s1)))"

section \<open>The safety gate\<close>

definition is_safe :: "env \<Rightarrow> assistant \<Rightarrow> string \<Rightarrow> (exn + bool) \<times> event list" where
  "is_safe w s command =
     (if dangerous command then (Inr False, [])
      else case cfg (config s) ''security'' ''require_confirmation'' of
             Inl e \<Rightarrow> (Inl e, [])
           | Inr v \<Rightarrow>
               if truthy v
               then (let shown = [Print (''\<newline>[Safety] Command to execute: '' @ command),
                                  Input ''[Safety] Execute command? (y/N): '']
                     in case stdin w command of
                          EndOfInput \<Rightarrow> (Inl EOFError, shown)
                        | Line answer \<Rightarrow> (Inr (lower (strip answer) = ''y''), shown))
               else (Inr True, []))"

section \<open>The executor\<close>

definition truncation_marker :: string where
  "truncation_marker = ''\<newline>\<newline>[OUTPUT TRUNCATED]''"

definition run_command :: "env \<Rightarrow> assistant \<Rightarrow> string \<Rightarrow> (string \<times> int) \<times> event list" where
  \<comment> \<open>the \<open>try\<close> block of \<open>_execute_command\<close> with its two handlers\<close>
  "run_command w s command =
     (case cfg (config s) ''security'' ''timeout'' of
        Inl e \<Rightarrow> ((''Execution error: '' @ str_exn e, 1), [])
      | Inr t \<Rightarrow>
          (case subprocess_run w command t of
             TimeoutExpired \<Rightarrow> ((''Command timed out'', 1), [Run command t])
           | RunRaises m \<Rightarrow> ((''Execution error: '' @ m, 1), [Run command t])
           | Completed out err rc \<Rightarrow>
               (let output = out @ err
                in case cfg (config s) ''security'' ''max_output'' of
                     Inl e \<Rightarrow> ((''Execution error: '' @ str_exn e, 1), [Run command t])
                   | Inr mo \<Rightarrow>
                       (case len_gt (length output) mo of
                          Inl e \<Rightarrow> ((''Execution error: '' @ str_exn e, 1), [Run command t])
                        | Inr over \<Rightarrow>
                            if over
                            then (case as_int mo of
                                    None \<Rightarrow>
                                      ((''Execution error: slice indices must be integers or ''
                                        @ ''None or have an __index__ method'', 1),
                                       [Run command t])
                                  | Some m \<Rightarrow>
                                      ((slice_to output m @ truncation_marker, rc),
                                       [Run command t]))
                            else ((output, rc), [Run command t])))))"

definition execute_command :: "env \<Rightarrow> assistant \<Rightarrow> string \<Rightarrow> (exn + string \<times> int) \<times> event list" where
  "execute_command w s command =
     (if command = [] then (Inr (''No command to execute'', 1), [])
      else if safety_checks s
      then (case is_safe w s command of
              (Inl e, tr) \<Rightarrow> (Inl e, tr)
            | (Inr ok, tr) \<Rightarrow>
                if \<not> ok then (Inr (''Command blocked by safety system'', 1), tr)
                else (case run_command w s command of (res, tr') \<Rightarrow> (Inr res, tr @ tr')))
      else (case run_command w s command of (res, tr') \<Rightarrow> (Inr res, tr')))"

section \<open>The model collaborator\<close>

definition fallback :: string where
  "fallback = ''I encountered an error processing your request. Please try again.''"

definition generate_response :: "env \<Rightarrow> assistant \<Rightarrow> string \<Rightarrow> string \<times> event list" where
  "generate_response w s prompt =
     (case cfg (config s) ''api'' ''ollama_endpoint'' of
        Inl e \<Rightarrow> (fallback, [LogError (''API error: '' @ str_exn e)])
      | Inr endpoint \<Rightarrow>
          (case cfg (config s) ''api'' ''timeout'' of
             Inl e \<Rightarrow> (fallback, [LogError (''API error: '' @ str_exn e)])
           | Inr t \<Rightarrow>
               (case requests_post w endpoint (context s) t of
                  ApiRaises m \<Rightarrow>
                    (fallback, [Post endpoint (context s) t, LogError (''API error: '' @ m)])
                | Content c \<Rightarrow> (strip c, [Post endpoint (context s) t]))))"

section \<open>Command extraction\<close>

fun before_first :: "string \<Rightarrow> string \<Rightarrow> string option" where
  \<comment> \<open>the text before the first occurrence of \<open>p\<close> in \<open>s\<close>, the text first\<close>
  "before_first [] p = (if p = [] then Some [] else None)"
| "before_first (x # xs) p =
     (if startswith (x # xs) p then Some []
      else map_option ((#) x) (before_first xs p))"

fun fenced_bash :: "string \<Rightarrow> string option" where
  \<comment> \<open>group 1 of the search for a fence opened by three backquotes and \<open>bash\<close> at the end
      of its line and closed by three backquotes at the start of a line, with
      \<open>re.DOTALL\<close>: the leftmost opening that has a closing after it, and the text up to
      the first such closing\<close>
  "fenced_bash [] = None"
| "fenced_bash (x # xs) =
     (if startswith (x # xs) ''```bash\<newline>''
      then (case before_first (drop 8 (x # xs)) ''\<newline>```'' of
              Some inner \<Rightarrow> Some inner
            | None \<Rightarrow> fenced_bash xs)
      else fenced_bash xs)"

definition extract_command :: "string \<Rightarrow> string option" where
  "extract_command response =
     (case (if contains response ''```bash'' then fenced_bash response else None) of
        Some inner \<Rightarrow> Some (strip inner)
      | None \<Rightarrow>
          if startswith response ''$ '' then Some (strip (drop 2 response)) else None)"

section \<open>The orchestrator\<close>

datatype pyval = VStr string | VBool bool | VInt int

fun show_val :: "pyval \<Rightarrow> string" where
  "show_val (VStr s) = s"
| "show_val (VBool b) = show_bool b"
| "show_val (VInt i) = show_int i"

definition get_system_info :: "env \<Rightarrow> assistant \<Rightarrow> (string \<times> pyval) list" where
  "get_system_info w s =
     [ (''system'', VStr (platform w)),
       (''user'', VStr (user_name s)),
       (''wsl'', VBool (is_wsl s)),
       (''root'', VBool (is_root s)),
       (''session_start'', VStr (session_start s)),
       (''context_size'', VInt (int (length (context s)) - 1)) ]"

definition history_line :: "nat \<times> turn \<Rightarrow> string" where
  "history_line p =
     (case p of (i, msg) \<Rightarrow>
        show_nat (i + 1) @ ''. '' @ role msg @ '': '' @ take 60 (content msg)
        @ (if length (content msg) > 60 then ''...'' else []))"

definition ask_model :: "env \<Rightarrow> assistant \<Rightarrow> string \<Rightarrow> (exn + string) \<times> assistant \<times> event list" where
  \<comment> \<open>\<open>handle_query\<close> from the call of the model on\<close>
  "ask_model w s1 user_input =
     (case generate_response w s1 user_input of (response, tr1) \<Rightarrow>
      case add_to_history s1 ''assistant'' response of
        (Inl e, s2) \<Rightarrow> (Inl e, s2, tr1)
      | (Inr u, s2) \<Rightarrow>
          (case extract_command response of
             None \<Rightarrow> (Inr response, s2, tr1)
           | Some command \<Rightarrow>
               if command = [] then (Inr response, s2, tr1)
               else
                 (case execute_command w s2 command of
                    (Inl e, tr2) \<Rightarrow> (Inl e, s2, tr1 @ tr2)
                  | (Inr (output, returncode), tr2) \<Rightarrow>
                      (let command_result =
                             ''Command executed (exit='' @ show_int returncode @ ''): '' @ command
                             @ ''\<newline>Output:\<newline>'' @ output;
                           follow_up =
                             ''Command executed:\<newline>```bash\<newline>'' @ command
                             @ ''\<newline>```\<newline>Exit code: '' @ show_int returncode
                             @ ''\<newline>Output:\<newline>'' @ take 500 output
                             @ (if length output > 500 then ''...'' else []);
                           tr3 = tr1 @ tr2 @ [LogInfo command_result]
                       in case add_to_history s2 ''system'' follow_up of
                            (Inl e, s3) \<Rightarrow> (Inl e, s3, tr3)
                          | (Inr u, s3) \<Rightarrow>
                              if returncode = 0
                              then (Inr (response @ ''\<newline>\<newline>Command executed successfully:''
                                         @ ''\<newline>```bash\<newline>'' @ command @ ''\<newline>```''),
                                    s3, tr3)
                              else (Inr (response @ ''\<newline>\<newline>Command failed (exit ''
                                         @ show_int returncode @ ''):\<newline>```bash\<newline>''
                                         @ command @ ''\<newline>```''),
                                    s3, tr3)))))"

definition handle_query :: "env \<Rightarrow> assistant \<Rightarrow> string \<Rightarrow> (exn + string) \<times> assistant \<times> event list" where
  "handle_query w s user_input =
     (case add_to_history s ''user'' user_input of
        (Inl e, s1) \<Rightarrow> (Inl e, s1, [])
      | (Inr u, s1) \<Rightarrow>
          if contains (lower user_input) ''toggle safety''
          then (let s2 = s1\<lparr>safety_checks := \<not> safety_checks s1\<rparr>
                in (Inr (''Safety checks have been ''
                         @ (if safety_checks s2 then ''ENABLED'' else ''DISABLED'') @ ''.''),
                    s2, []))
          else if contains (lower user_input) ''system information''
          then (Inr (''System Information:\<newline>''
                     @ join ''\<newline>'' (map (\<lambda>(k, v). k @ '': '' @ show_val v)
                                            (get_system_info w s1))),
                s1, [])
          else if contains (lower user_input) ''conversation history''
          then (Inr (''Recent Conversation History:\<newline>''
                     @ join ''\<newline>'' (map history_line (enumerate 0 (drop 1 (context s1))))),
                s1, [])
          else if contains (lower user_input) ''exit'' \<or> contains (lower user_input) ''quit''
          then (Inr ''EXIT_REQUEST'', s1, [])
          else ask_model w s1 user_input)"

section \<open>Configuration loading and start-up\<close>

definition default_config :: "(string \<times> json) list" where
  "default_config =
     [ (''api'', JObj [ (''ollama_endpoint'', JStr ''http://localhost:11434/api/chat''),
                        (''timeout'', JInt 30) ]),
       (''personality'', JObj [ (''name'', JStr ''Kali-Assist''),
                                (''tone'', JStr ''professional''),
                                (''verbosity'', JStr ''detailed'') ]),
       (''security'', JObj [ (''require_confirmation'', JBool True),
                             (''max_output'', JInt 5000),
                             (''timeout'', JInt 45) ]),
       (''context'', JObj [ (''memory_size'', JInt 10) ]) ]"

fun dict_set :: "(string \<times> json) list \<Rightarrow> string \<Rightarrow> json \<Rightarrow> (string \<times> json) list" where
  \<comment> \<open>\<open>d[k] = v\<close>: an existing key keeps its place, a new one goes last\<close>
  "dict_set [] k v = [(k, v)]"
| "dict_set ((k', v') # d) k v = (if k' = k then (k, v) # d else (k', v') # dict_set d k v)"

definition dict_merge :: "(string \<times> json) list \<Rightarrow> (string \<times> json) list \<Rightarrow> (string \<times> json) list" where
  \<comment> \<open>\<open>{**d, **x}\<close>\<close>
  "dict_merge d x = fold (\<lambda>(k, v) acc. dict_set acc k v) x d"

datatype config_file =
    Missing              \<comment> \<open>\<open>config_path.exists()\<close> is false\<close>
  | Unreadable string    \<comment> \<open>\<open>exists\<close> or \<open>open\<close> raises, with the \<open>str\<close> of the exception\<close>
  | Unparsable string    \<comment> \<open>\<open>json.load\<close> raises, with the \<open>str\<close> of the exception\<close>
  | Parsed json          \<comment> \<open>what \<open>json.load\<close> returns\<close>

fun load_config :: "config_file \<Rightarrow> json \<times> event list" where
  "load_config Missing = (JObj default_config, [])"
| "load_config (Unreadable m) = (JObj default_config, [LogError (''Config error: '' @ m)])"
| "load_config (Unparsable m) = (JObj default_config, [LogError (''Config error: '' @ m)])"
| "load_config (Parsed (JObj kvs)) = (JObj (dict_merge default_config kvs), [])"
| "load_config (Parsed v) =
     (JObj default_config,
      [LogError (''Config error: '' @ quoted (type_name v) @ '' object is not a mapping'')])"

definition init :: "env \<Rightarrow> config_file \<Rightarrow> bool \<Rightarrow> bool \<Rightarrow> string \<Rightarrow> string \<Rightarrow> assistant \<times> event list" where
  \<comment> \<open>\<open>KaliAssistant.__init__\<close>, given the file, the two detected flags, the user name and the
      time of the start\<close>
  "init w file wsl root user start =
     (case load_config file of (c, tr) \<Rightarrow>
        (\<lparr> context =
             [Turn ''system''
                (''You are an advanced AI assistant running in Kali Linux. Today is '' @ start
                 @ ''. User: '' @ user @ ''. System: '' @ platform w @ ''. ''
                 @ ''You can help with security testing, Linux administration, coding, and general questions. ''
                 @ ''When appropriate, generate and execute commands. Always maintain a helpful, professional tone. ''
                 @ ''For security tools, provide context and explanations.'')],
            safety_checks = True,
            config = c,
            is_wsl = wsl,
            is_root = root,
            user_name = user,
            session_start = start \<rparr>,
         tr @ [LogInfo (''Session started for user: '' @ user)]))"

section \<open>Notions used in the statements\<close>

text \<open>
  A response holds a fenced block tagged \<open>bash\<close> when an opening fence ends a line and a
  closing fence starts a later one. Its first fence is the block whose opening fence is
  the leftmost one that has a closing fence after it, closed by the first closing fence
  after that opening. A user input is a special request when it holds one
  of the control phrases of \<open>handle_query\<close>. A sequence of appends is \<open>_add_to_history\<close>
  called once for each role and content, in order.
\<close>

definition has_fence :: "string \<Rightarrow> bool" where
  "has_fence response =
     (\<exists>before inner rest.
        response = before @ ''```bash\<newline>'' @ inner @ ''\<newline>```'' @ rest)"

definition first_fence :: "string \<Rightarrow> string \<Rightarrow> string \<Rightarrow> string \<Rightarrow> bool" where
  "first_fence response before inner rest =
     (response = before @ ''```bash\<newline>'' @ inner @ ''\<newline>```'' @ rest
      \<and> (\<forall>b i r. response = b @ ''```bash\<newline>'' @ i @ ''\<newline>```'' @ r
             \<longrightarrow> length before \<le> length b
                 \<and> (length b = length before \<longrightarrow> length inner \<le> length i)))"

definition special_request :: "string \<Rightarrow> bool" where
  "special_request user_input =
     (contains (lower user_input) ''toggle safety''
      \<or> contains (lower user_input) ''system information''
      \<or> contains (lower user_input) ''conversation history''
      \<or> contains (lower user_input) ''exit''
      \<or> contains (lower user_input) ''quit'')"

fun appended :: "assistant \<Rightarrow> (string \<times> string) list \<Rightarrow> assistant" where
  "appended s [] = s"
| "appended s ((r, c) # ts) = appended (snd (add_to_history s r c)) ts"

section \<open>Sample sessions\<close>

text \<open>
  Concrete collaborators and assistants on which the theorems are instantiated: a human
  who answers \<open>Y\<close>, a shell that prints \<open>hi\<close>, a model that proposes \<open>rm -rf /\<close>, and an
  assistant started with no configuration file.
\<close>

definition sample_env :: env where
  "sample_env =
     \<lparr> stdin = (\<lambda>c. Line '' Y ''),
       subprocess_run = (\<lambda>c t. Completed ''hi\<newline>'' [] 0),
       requests_post = (\<lambda>e m t. Content ''```bash\<newline>rm -rf /\<newline>```''),
       platform = ''Linux'' \<rparr>"

definition sample_assistant :: assistant where
  "sample_assistant = fst (init sample_env Missing False False ''kali'' ''2024-01-01 00:00:00'')"

definition unchecked_assistant :: assistant where
  \<comment> \<open>safety checks off, two characters of output allowed\<close>
  "unchecked_assistant =
     sample_assistant\<lparr> safety_checks := False,
       config := JObj [(''security'', JObj [(''max_output'', JInt 2), (''timeout'', JInt 45)])] \<rparr>"

definition zero_memory :: assistant where
  \<comment> \<open>started with the file \<open>{"context": {"memory_size": 0}}\<close>\<close>
  "zero_memory =
     fst (init sample_env (Parsed (JObj [(''context'', JObj [(''memory_size'', JInt 0)])]))
            False False ''kali'' ''2024-01-01 00:00:00'')"



definition chat_env :: env where
  \<comment> \<open>a model that proposes no command\<close>
  "chat_env = sample_env\<lparr>requests_post := (\<lambda>e m t. Content ''  Hello there.  '')\<rparr>"

definition silent_env :: env where
  \<comment> \<open>a shell whose command prints nothing\<close>
  "silent_env = sample_env\<lparr>subprocess_run := (\<lambda>c t. Completed [] [] 0)\<rparr>"

definition negative_output :: assistant where
  \<comment> \<open>started with a security section that sets \<open>max_output\<close> to \<open>-1\<close> and asks no
      confirmation\<close>
  "negative_output =
     fst (init sample_env
            (Parsed (JObj [(''security'', JObj [(''require_confirmation'', JBool False),
                                                (''max_output'', JInt (- 1)),
                                                (''timeout'', JInt 45)])]))
            False False ''kali'' ''2024-01-01 00:00:00'')"

definition text_max_output :: assistant where
  \<comment> \<open>started with a security section that sets \<open>max_output\<close> to the text \<open>"5"\<close> and asks no
      confirmation\<close>
  "text_max_output =
     fst (init sample_env
            (Parsed (JObj [(''security'', JObj [(''require_confirmation'', JBool False),
                                                (''max_output'', JStr ''5''),
                                                (''timeout'', JInt 45)])]))
            False False ''kali'' ''2024-01-01 00:00:00'')"

definition full_store :: assistant where
  \<comment> \<open>the default configuration after ten appends: the store holds eleven turns\<close>
  "full_store =
     appended sample_assistant
       [ (''user'', ''ask1''), (''assistant'', ''ans1''), (''user'', ''ask2''),
         (''assistant'', ''ans2''), (''user'', ''ask3''), (''assistant'', ''ans3''),
         (''user'', ''ask4''), (''assistant'', ''ans4''), (''user'', ''ask5''),
         (''assistant'', ''ans5'') ]"

section \<open>The safety gate: properties\<close>

lemma sample_config [simp]: "config sample_assistant = JObj default_config"
  by (simp add: sample_assistant_def init_def)

lemma sample_safety [simp]: "safety_checks sample_assistant"
  by (simp add: sample_assistant_def init_def)

text \<open>
  C1. The authorization check returns false, showing and asking nothing, for every command
  that matches a danger pattern, whatever the configuration and the answer. For a command
  that matches none it returns true, again asking nothing, when \<open>require_confirmation\<close>
  is false; when it is true it prints the command, asks, and returns true exactly when the
  answer, stripped and lower-cased, is \<open>y\<close>.
\<close>

theorem is_safe_policy:
  "(dangerous command \<longrightarrow> is_safe w s command = (Inr False, []))
   \<and> (\<not> dangerous command \<and> cfg (config s) ''security'' ''require_confirmation'' = Inr v
        \<and> \<not> truthy v \<longrightarrow> is_safe w s command = (Inr True, []))
   \<and> (\<not> dangerous command \<and> cfg (config s) ''security'' ''require_confirmation'' = Inr v
        \<and> truthy v \<and> stdin w command = Line answer \<longrightarrow>
        is_safe w s command =
          (Inr (lower (strip answer) = ''y''),
           [Print (''\<newline>[Safety] Command to execute: '' @ command),
            Input ''[Safety] Execute command? (y/N): '']))"
  by (simp add: is_safe_def)

lemma dangerous_rm: "dangerous ''rm -rf /''"
  by code_simp

lemma not_dangerous_ls: "\<not> dangerous ''ls''"
  by code_simp

lemma default_require: "cfg (JObj default_config) ''security'' ''require_confirmation'' = Inr (JBool True)"
  by (simp add: cfg_def default_config_def)

theorem is_safe_policy_witness:
  "is_safe sample_env sample_assistant ''rm -rf /'' = (Inr False, [])
   \<and> is_safe sample_env
        (sample_assistant\<lparr>config := JObj [(''security'', JObj [(''require_confirmation'', JBool False)])]\<rparr>)
        ''ls'' = (Inr True, [])
   \<and> is_safe sample_env sample_assistant ''ls'' =
        (Inr True, [Print ''\<newline>[Safety] Command to execute: ls'',
                    Input ''[Safety] Execute command? (y/N): ''])
   \<and> is_safe (sample_env\<lparr>stdin := (\<lambda>c. Line [])\<rparr>) sample_assistant ''ls'' =
        (Inr False, [Print ''\<newline>[Safety] Command to execute: ls'',
                     Input ''[Safety] Execute command? (y/N): ''])"
proof -
  have a: "is_safe sample_env sample_assistant ''rm -rf /'' = (Inr False, [])"
    using is_safe_policy [where command = "''rm -rf /''" and w = sample_env and s = sample_assistant] dangerous_rm by simp
  have b: "is_safe sample_env
        (sample_assistant\<lparr>config := JObj [(''security'', JObj [(''require_confirmation'', JBool False)])]\<rparr>)
        ''ls'' = (Inr True, [])"
    using is_safe_policy [where command = "''ls''" and v = "JBool False" and w = sample_env
        and s = "sample_assistant\<lparr>config := JObj [(''security'', JObj [(''require_confirmation'', JBool False)])]\<rparr>"] not_dangerous_ls
    by (simp add: cfg_def)
  have y: "lower (strip '' Y '') = ''y''" by code_simp
  have c: "is_safe sample_env sample_assistant ''ls'' =
        (Inr True, [Print ''\<newline>[Safety] Command to execute: ls'',
                    Input ''[Safety] Execute command? (y/N): ''])"
    using is_safe_policy [where command = "''ls''" and s = sample_assistant and v = "JBool True"
        and w = sample_env and answer = "'' Y ''"]
      not_dangerous_ls default_require y
    by (simp add: sample_env_def)
  have n: "lower (strip []) \<noteq> ''y''" by code_simp
  have d: "is_safe (sample_env\<lparr>stdin := (\<lambda>c. Line [])\<rparr>) sample_assistant ''ls'' =
        (Inr False, [Print ''\<newline>[Safety] Command to execute: ls'',
                     Input ''[Safety] Execute command? (y/N): ''])"
    using is_safe_policy [where command = "''ls''" and s = sample_assistant and v = "JBool True"
        and w = "sample_env\<lparr>stdin := (\<lambda>c. Line [])\<rparr>" and answer = "[]"]
      not_dangerous_ls default_require n
    by (simp add: sample_env_def)
  show ?thesis using a b c d by simp
qed

section \<open>The conversation store: what an append leaves alone\<close>

lemma add_to_history_frame:
  "snd (add_to_history s r c) = s\<lparr>context := context (snd (add_to_history s r c))\<rparr>"
  by (simp add: add_to_history_def Let_def split: sum.splits list.splits option.splits)

lemma add_to_history_config [simp]: "config (snd (add_to_history s r c)) = config s"
  by (metis add_to_history_frame assistant.select_convs(3) assistant.surjective assistant.update_convs(1))

lemma add_to_history_safety [simp]: "safety_checks (snd (add_to_history s r c)) = safety_checks s"
  by (metis add_to_history_frame assistant.select_convs(2) assistant.surjective assistant.update_convs(1))

lemma add_to_history_int:
  assumes "cfg (config s) ''context'' ''memory_size'' = Inr (JInt m)"
  shows "add_to_history s r c =
           (Inr (),
            s\<lparr>context := (if int (length (context s)) + 1 > m + 1
                            then hd (context s @ [Turn r c]) # slice_from (context s @ [Turn r c]) (- m)
                            else context s @ [Turn r c])\<rparr>)"
  using assms
  by (cases "context s") (simp_all add: add_to_history_def Let_def add_one_def)

section \<open>The conversation store: the bound on its length\<close>

text \<open>
  For a memory size of at least one, any sequence of appends to a store that holds one
  turn leaves that turn first, followed by the last \<open>memory_size\<close> appended turns in
  their order, so the length stays within \<open>memory_size + 1\<close>.
\<close>

lemma drop_last_append:
  "drop (length (drop (length xs - m) xs @ ys) - m) (drop (length xs - m) xs @ ys)
     = drop (length (xs @ ys) - m) (xs @ ys)"
proof (cases "length xs \<le> m")
  case True
  then show ?thesis by simp
next
  case False
  then have "length (drop (length xs - m) xs @ ys) - m = length ys" by simp
  moreover from False have "length (xs @ ys) - m = (length xs - m) + length ys" by simp
  ultimately show ?thesis by (simp add: drop_drop [symmetric] add.commute del: drop_drop)
qed

lemma add_to_history_keeps_recent:
  assumes "cfg (config s) ''context'' ''memory_size'' = Inr (JInt (int m))"
    and "1 \<le> m"
    and "context s = first # rest"
    and "length rest \<le> m"
  shows "context (snd (add_to_history s r c))
           = first # drop (length (rest @ [Turn r c]) - m) (rest @ [Turn r c])"
proof (cases "length rest = m")
  case True
  with assms(2) obtain x rest' where rest: "rest = x # rest'" by (cases rest) auto
  from True assms show ?thesis
    by (simp add: add_to_history_int slice_from_def rest)
next
  case False
  with assms show ?thesis
    by (simp add: add_to_history_int)
qed

lemma appended_config [simp]: "config (appended s ts) = config s"
  by (induction s ts rule: appended.induct) simp_all

lemma appended_keeps_recent:
  assumes "cfg (config s) ''context'' ''memory_size'' = Inr (JInt (int m))"
    and "1 \<le> m"
    and "context s = first # rest"
    and "length rest \<le> m"
  shows "context (appended s ts)
           = first # drop (length (rest @ map (\<lambda>(r, c). Turn r c) ts) - m)
                          (rest @ map (\<lambda>(r, c). Turn r c) ts)"
  using assms
proof (induction s ts arbitrary: rest rule: appended.induct)
  case (1 s)
  then show ?case by simp
next
  case (2 s r c ts)
  let ?s' = "snd (add_to_history s r c)"
  let ?rest' = "drop (length (rest @ [Turn r c]) - m) (rest @ [Turn r c])"
  have ctx: "context ?s' = first # ?rest'"
    using add_to_history_keeps_recent [OF "2.prems"] .
  have len: "length ?rest' \<le> m" by simp
  have cf: "cfg (config ?s') ''context'' ''memory_size'' = Inr (JInt (int m))"
    using "2.prems"(1) by simp
  have "context (appended ?s' ts)
          = first # drop (length (?rest' @ map (\<lambda>(r, c). Turn r c) ts) - m)
                         (?rest' @ map (\<lambda>(r, c). Turn r c) ts)"
    using "2.IH" [OF cf "2.prems"(2) ctx len] .
  also have "drop (length (?rest' @ map (\<lambda>(r, c). Turn r c) ts) - m)
                  (?rest' @ map (\<lambda>(r, c). Turn r c) ts)
             = drop (length ((rest @ [Turn r c]) @ map (\<lambda>(r, c). Turn r c) ts) - m)
                    ((rest @ [Turn r c]) @ map (\<lambda>(r, c). Turn r c) ts)"
    by (rule drop_last_append)
  finally show ?case by simp
qed

lemma appends_bounded:
  assumes "cfg (config s) ''context'' ''memory_size'' = Inr (JInt (int m))"
    and "1 \<le> m"
    and "context s = [first]"
  shows "context (appended s ts)
           = first # drop (length ts - m) (map (\<lambda>(r, c). Turn r c) ts)
         \<and> length (context (appended s ts)) \<le> m + 1"
  using appended_keeps_recent [OF assms(1,2), of first "[]" ts] assms(3) by simp

text \<open>
  C4. With \<open>memory_size = 0\<close> the bound of the claim is one turn, and the code breaks it:
  the trimming slice \<open>context[-0:]\<close> is the whole list, so each append puts one more copy
  of the first turn in front and drops nothing.
\<close>

theorem memory_size_zero_grows:
  "length (context zero_memory) = 1
   \<and> fst (add_to_history zero_memory ''user'' ''hi'') = Inr ()
   \<and> map role (context (snd (add_to_history zero_memory ''user'' ''hi'')))
       = [''system'', ''system'', ''user'']
   \<and> int (length (context (snd (add_to_history zero_memory ''user'' ''hi'')))) > 0 + 1
   \<and> map role (context (appended zero_memory [(''user'', ''a''), (''assistant'', ''b'')]))
       = [''system'', ''system'', ''system'', ''user'', ''assistant'']"
  by code_simp

section \<open>The executor: properties\<close>

lemma not_dangerous_empty: "\<not> dangerous []"
  by code_simp

lemma ask_model_safety:
  "safety_checks (fst (snd (ask_model w s user_input))) = safety_checks s"
  by (simp add: ask_model_def Let_def split_beta split: sum.splits option.splits)

lemma handle_query_safety:
  assumes "\<not> contains (lower user_input) ''toggle safety''"
  shows "safety_checks (fst (snd (handle_query w s user_input))) = safety_checks s"
  using assms
  by (simp add: handle_query_def ask_model_safety split_beta split: sum.splits)

text \<open>
  C2, as the code has it. While the safety checks are on, a command that matches a danger
  pattern is never handed to the shell: the executor returns the refusal with exit code 1
  and neither asks nor spawns. The checks are a session flag that every query leaves as
  it is, except the request to toggle safety; that request turns the whole gate off, the
  danger patterns included.
\<close>

theorem dangerous_blocked_when_checked:
  "(dangerous command \<and> safety_checks s
      \<longrightarrow> execute_command w s command = (Inr (''Command blocked by safety system'', 1), []))
   \<and> (\<not> contains (lower user_input) ''toggle safety''
        \<longrightarrow> safety_checks (fst (snd (handle_query w s user_input))) = safety_checks s)"
proof (intro conjI impI)
  assume a: "dangerous command \<and> safety_checks s"
  then have "command \<noteq> []" using not_dangerous_empty by auto
  moreover from a have "is_safe w s command = (Inr False, [])"
    by (simp add: is_safe_def)
  ultimately show "execute_command w s command
      = (Inr (''Command blocked by safety system'', 1), [])"
    using a by (simp add: execute_command_def)
next
  assume "\<not> contains (lower user_input) ''toggle safety''"
  then show "safety_checks (fst (snd (handle_query w s user_input))) = safety_checks s"
    by (rule handle_query_safety)
qed

theorem dangerous_blocked_when_checked_witness:
  "execute_command sample_env sample_assistant ''rm -rf /''
     = (Inr (''Command blocked by safety system'', 1), [])
   \<and> safety_checks (fst (snd (handle_query sample_env sample_assistant ''clean up'')))"
proof -
  have nt: "\<not> contains (lower ''clean up'') ''toggle safety''" by code_simp
  have a: "execute_command sample_env sample_assistant ''rm -rf /''
     = (Inr (''Command blocked by safety system'', 1), [])"
    using dangerous_blocked_when_checked
      [where command = "''rm -rf /''" and s = sample_assistant and w = sample_env,
       THEN conjunct1]
      dangerous_rm sample_safety
    by blast
  have b: "safety_checks (fst (snd (handle_query sample_env sample_assistant ''clean up'')))"
    using dangerous_blocked_when_checked
      [where user_input = "''clean up''" and s = sample_assistant and w = sample_env,
       THEN conjunct2]
      nt sample_safety
    by blast
  show ?thesis using a b by blast
qed

text \<open>
  C2 as stated fails: after the request to toggle safety, the dangerous command is
  run, by the executor called alone and by the next query whose reply proposes it.
\<close>

theorem toggle_safety_unblocks:
  "dangerous ''rm -rf /''
   \<and> \<not> safety_checks (fst (snd (handle_query sample_env sample_assistant ''toggle safety'')))
   \<and> snd (execute_command sample_env
             (fst (snd (handle_query sample_env sample_assistant ''toggle safety'')))
             ''rm -rf /'') = [Run ''rm -rf /'' (JInt 45)]
   \<and> Run ''rm -rf /'' (JInt 45)
       \<in> set (snd (snd (handle_query sample_env
                   (fst (snd (handle_query sample_env sample_assistant ''toggle safety'')))
                   ''clean up'')))"
  by code_simp

lemma unchecked_facts:
  "\<not> safety_checks unchecked_assistant"
  "cfg (config unchecked_assistant) ''security'' ''timeout'' = Inr (JInt 45)"
  "cfg (config unchecked_assistant) ''security'' ''max_output'' = Inr (JInt 2)"
  by (simp_all add: unchecked_assistant_def cfg_def)

lemma negative_output_facts:
  "fst (is_safe w negative_output ''echo hi'') = Inr True"
  "cfg (config negative_output) ''security'' ''timeout'' = Inr (JInt 45)"
  "cfg (config negative_output) ''security'' ''max_output'' = Inr (JInt (- 1))"
proof -
  have nd: "\<not> dangerous ''echo hi''" by code_simp
  have rc: "cfg (config negative_output) ''security'' ''require_confirmation'' = Inr (JBool False)"
    by code_simp
  show "fst (is_safe w negative_output ''echo hi'') = Inr True"
    using nd rc by (simp add: is_safe_def)
  show "cfg (config negative_output) ''security'' ''timeout'' = Inr (JInt 45)"
    by code_simp
  show "cfg (config negative_output) ''security'' ''max_output'' = Inr (JInt (- 1))"
    by code_simp
qed

lemma text_max_output_facts:
  "fst (is_safe w text_max_output ''ls'') = Inr True"
  "cfg (config text_max_output) ''security'' ''timeout'' = Inr (JInt 45)"
  "cfg (config text_max_output) ''security'' ''max_output'' = Inr (JStr ''5'')"
proof -
  have rc: "cfg (config text_max_output) ''security'' ''require_confirmation'' = Inr (JBool False)"
    by code_simp
  show "fst (is_safe w text_max_output ''ls'') = Inr True"
    using not_dangerous_ls rc by (simp add: is_safe_def)
  show "cfg (config text_max_output) ''security'' ''timeout'' = Inr (JInt 45)"
    by code_simp
  show "cfg (config text_max_output) ''security'' ''max_output'' = Inr (JStr ''5'')"
    by code_simp
qed

lemma execute_command_passes:
  assumes "command \<noteq> []"
    and "\<not> safety_checks s \<or> fst (is_safe w s command) = Inr True"
  shows "fst (execute_command w s command) = Inr (fst (run_command w s command))"
  using assms by (auto simp: execute_command_def split: prod.splits sum.splits)

text \<open>
  C5, as the code has it. When the process completes and \<open>max_output\<close> is a non-negative
  integer, the executor cuts the merged output exactly when it is longer than
  \<open>max_output\<close> characters: the result is then the first \<open>max_output\<close> characters followed by
  the marker, so it is never longer than \<open>max_output\<close> plus the marker, and an output of
  exactly \<open>max_output\<close> characters comes back unchanged. The value comes from the
  configuration as it is: a negative one cuts every output, taking that many characters
  off its end, and appends the marker.
\<close>

theorem output_truncation:
  assumes "command \<noteq> []"
    and "\<not> safety_checks s \<or> fst (is_safe w s command) = Inr True"
    and "cfg (config s) ''security'' ''timeout'' = Inr t"
    and "subprocess_run w command t = Completed out err rc"
    and "cfg (config s) ''security'' ''max_output'' = Inr (JInt mo)"
  shows "(0 \<le> mo \<longrightarrow>
            fst (execute_command w s command) =
              Inr (if length (out @ err) > nat mo
                   then take (nat mo) (out @ err) @ truncation_marker
                   else out @ err, rc)
            \<and> length (if length (out @ err) > nat mo
                       then take (nat mo) (out @ err) @ truncation_marker
                       else out @ err) \<le> nat mo + length truncation_marker
            \<and> (length (out @ err) = nat mo
                 \<longrightarrow> fst (execute_command w s command) = Inr (out @ err, rc)))
         \<and> (mo < 0 \<longrightarrow>
               fst (execute_command w s command) =
                 Inr (take (length (out @ err) - nat (- mo)) (out @ err) @ truncation_marker, rc))"
proof -
  have run: "fst (run_command w s command) =
               (if int (length (out @ err)) > mo
                then slice_to (out @ err) mo @ truncation_marker
                else out @ err, rc)"
    using assms(3-5) by (simp add: run_command_def len_gt_def Let_def)
  have ex: "fst (execute_command w s command) =
               Inr (if int (length (out @ err)) > mo
                    then slice_to (out @ err) mo @ truncation_marker
                    else out @ err, rc)"
    using execute_command_passes [OF assms(1,2)] run by simp
  have neg: "nat (int (length (out @ err)) + mo) = length (out @ err) - nat (- mo)" if "mo < 0"
    using that by linarith
  show ?thesis
  proof (intro conjI impI)
    assume "0 \<le> mo"
    then show "fst (execute_command w s command) =
              Inr (if length (out @ err) > nat mo
                   then take (nat mo) (out @ err) @ truncation_marker
                   else out @ err, rc)"
      unfolding ex by (auto simp: slice_to_def)
    then show "length (out @ err) = nat mo
                 \<Longrightarrow> fst (execute_command w s command) = Inr (out @ err, rc)"
      by simp
    show "length (if length (out @ err) > nat mo
                       then take (nat mo) (out @ err) @ truncation_marker
                       else out @ err) \<le> nat mo + length truncation_marker"
      by auto
  next
    assume "mo < 0"
    then show "fst (execute_command w s command) =
                 Inr (take (length (out @ err) - nat (- mo)) (out @ err) @ truncation_marker, rc)"
      unfolding ex using neg by (simp add: slice_to_def)
  qed
qed

theorem output_truncation_witness:
  "fst (execute_command sample_env unchecked_assistant ''echo hi'')
     = Inr (''hi\<newline>\<newline>[OUTPUT TRUNCATED]'', 0)
   \<and> fst (execute_command (sample_env\<lparr>subprocess_run := (\<lambda>c t. Completed ''h'' ''i'' 0)\<rparr>)
            unchecked_assistant ''echo hi'') = Inr (''hi'', 0)
   \<and> fst (execute_command sample_env negative_output ''echo hi'')
       = Inr (''hi\<newline>\<newline>[OUTPUT TRUNCATED]'', 0)"
proof -
  have a: "fst (execute_command sample_env unchecked_assistant ''echo hi'')
     = Inr (''hi\<newline>\<newline>[OUTPUT TRUNCATED]'', 0)"
    using output_truncation [where command = "''echo hi''" and s = unchecked_assistant
        and w = sample_env and t = "JInt 45" and out = "''hi\<newline>''" and err = "[]" and rc = 0
        and mo = 2, THEN conjunct1]
      unchecked_facts
    by (simp add: sample_env_def truncation_marker_def)
  have b: "fst (execute_command (sample_env\<lparr>subprocess_run := (\<lambda>c t. Completed ''h'' ''i'' 0)\<rparr>)
            unchecked_assistant ''echo hi'') = Inr (''hi'', 0)"
    using output_truncation [where command = "''echo hi''" and s = unchecked_assistant
        and w = "sample_env\<lparr>subprocess_run := (\<lambda>c t. Completed ''h'' ''i'' 0)\<rparr>"
        and t = "JInt 45" and out = "''h''" and err = "''i''" and rc = 0 and mo = 2,
        THEN conjunct1]
      unchecked_facts
    by simp
  have c: "fst (execute_command sample_env negative_output ''echo hi'')
       = Inr (''hi\<newline>\<newline>[OUTPUT TRUNCATED]'', 0)"
    using output_truncation [where command = "''echo hi''" and s = negative_output
        and w = sample_env and t = "JInt 45" and out = "''hi\<newline>''" and err = "[]" and rc = 0
        and mo = "- 1", THEN conjunct2]
      negative_output_facts
    by (simp add: sample_env_def truncation_marker_def)
  show ?thesis using a b c by simp
qed

text \<open>
  C5 as stated fails: with \<open>max_output = -1\<close> an empty output comes back as the marker
  alone, longer than \<open>max_output\<close> plus the marker, and the output \<open>hi\<close> with its newline
  comes back without the newline, which is not its first \<open>max_output\<close> characters.
\<close>

theorem negative_max_output_truncates:
  "cfg (config negative_output) ''security'' ''max_output'' = Inr (JInt (- 1))
   \<and> fst (execute_command silent_env negative_output ''true'') = Inr (truncation_marker, 0)
   \<and> int (length truncation_marker) > - 1 + int (length truncation_marker)
   \<and> fst (execute_command sample_env negative_output ''echo hi'')
       = Inr (''hi\<newline>\<newline>[OUTPUT TRUNCATED]'', 0)"
  by code_simp

text \<open>
  C6, as the code has it. The gate is called before the \<open>try\<close> block, so the executor
  returns a result whenever the gate returns a verdict: an empty command gives exit code 1
  and no event at all; a timeout gives the text \<open>Command timed out\<close> and exit code 1; any
  other exception of the run gives its description and exit code 1; a completed process
  gives its own return code when \<open>max_output\<close> is an integer, and the description of the
  failed comparison with exit code 1 when \<open>max_output\<close> is a value that the length of the
  output cannot be compared with.
\<close>

theorem execute_command_results:
  "((\<not> safety_checks s \<or> command = [] \<or> (\<exists>ok. fst (is_safe w s command) = Inr ok))
      \<longrightarrow> (\<exists>text code. fst (execute_command w s command) = Inr (text, code)))
   \<and> (command = [] \<longrightarrow> execute_command w s command = (Inr (''No command to execute'', 1), []))
   \<and> (command \<noteq> [] \<and> (\<not> safety_checks s \<or> fst (is_safe w s command) = Inr True)
        \<and> cfg (config s) ''security'' ''timeout'' = Inr t
        \<and> subprocess_run w command t = TimeoutExpired
        \<longrightarrow> fst (execute_command w s command) = Inr (''Command timed out'', 1))
   \<and> (command \<noteq> [] \<and> (\<not> safety_checks s \<or> fst (is_safe w s command) = Inr True)
        \<and> cfg (config s) ''security'' ''timeout'' = Inr t
        \<and> subprocess_run w command t = RunRaises msg
        \<longrightarrow> fst (execute_command w s command) = Inr (''Execution error: '' @ msg, 1))
   \<and> (command \<noteq> [] \<and> (\<not> safety_checks s \<or> fst (is_safe w s command) = Inr True)
        \<and> cfg (config s) ''security'' ''timeout'' = Inr t
        \<and> subprocess_run w command t = Completed out err rc
        \<and> cfg (config s) ''security'' ''max_output'' = Inr (JInt mo)
        \<longrightarrow> (\<exists>text. fst (execute_command w s command) = Inr (text, rc)))
   \<and> (command \<noteq> [] \<and> (\<not> safety_checks s \<or> fst (is_safe w s command) = Inr True)
        \<and> cfg (config s) ''security'' ''timeout'' = Inr t
        \<and> subprocess_run w command t = Completed out err rc
        \<and> cfg (config s) ''security'' ''max_output'' = Inr v \<and> as_int v = None
        \<longrightarrow> fst (execute_command w s command)
             = Inr (''Execution error: '' @ quoted ''>'' @ '' not supported between instances of ''
                    @ quoted ''int'' @ '' and '' @ quoted (type_name v), 1))"
  apply (intro conjI impI)
  subgoal by (auto simp: execute_command_def split: prod.splits sum.splits)
  subgoal by (simp add: execute_command_def)
  subgoal by (simp add: execute_command_passes run_command_def)
  subgoal by (simp add: execute_command_passes run_command_def)
  subgoal by (simp add: execute_command_passes run_command_def len_gt_def Let_def)
  subgoal by (simp add: execute_command_passes run_command_def len_gt_def Let_def)
  done

theorem execute_command_results_witness:
  "(\<exists>text code. fst (execute_command sample_env sample_assistant ''ls'') = Inr (text, code))
   \<and> execute_command sample_env sample_assistant [] = (Inr (''No command to execute'', 1), [])
   \<and> fst (execute_command (sample_env\<lparr>subprocess_run := (\<lambda>c t. TimeoutExpired)\<rparr>)
            unchecked_assistant ''sleep 99'') = Inr (''Command timed out'', 1)
   \<and> fst (execute_command (sample_env\<lparr>subprocess_run := (\<lambda>c t. RunRaises ''No such file'')\<rparr>)
            unchecked_assistant ''ls'') = Inr (''Execution error: No such file'', 1)
   \<and> (\<exists>text. fst (execute_command (sample_env\<lparr>subprocess_run := (\<lambda>c t. Completed ''a'' ''b'' 3)\<rparr>)
                     unchecked_assistant ''ls'') = Inr (text, 3))
   \<and> fst (execute_command sample_env text_max_output ''ls'')
       = Inr (''Execution error: '' @ quoted ''>'' @ '' not supported between instances of ''
              @ quoted ''int'' @ '' and '' @ quoted ''str'', 1)"
proof -
  have ok: "fst (is_safe sample_env sample_assistant ''ls'') = Inr True"
    by code_simp
  have a: "\<exists>text code. fst (execute_command sample_env sample_assistant ''ls'') = Inr (text, code)"
    using execute_command_results [where w = sample_env and s = sample_assistant
        and command = "''ls''", THEN conjunct1] ok
    by blast
  have b: "execute_command sample_env sample_assistant [] = (Inr (''No command to execute'', 1), [])"
    using execute_command_results [where w = sample_env and s = sample_assistant
        and command = "[]", THEN conjunct2, THEN conjunct1]
    by simp
  have c: "fst (execute_command (sample_env\<lparr>subprocess_run := (\<lambda>c t. TimeoutExpired)\<rparr>)
            unchecked_assistant ''sleep 99'') = Inr (''Command timed out'', 1)"
    using execute_command_results [where w = "sample_env\<lparr>subprocess_run := (\<lambda>c t. TimeoutExpired)\<rparr>"
        and s = unchecked_assistant and command = "''sleep 99''" and t = "JInt 45"]
      unchecked_facts
    by simp
  have d: "fst (execute_command (sample_env\<lparr>subprocess_run := (\<lambda>c t. RunRaises ''No such file'')\<rparr>)
            unchecked_assistant ''ls'') = Inr (''Execution error: No such file'', 1)"
    using execute_command_results [where w = "sample_env\<lparr>subprocess_run := (\<lambda>c t. RunRaises ''No such file'')\<rparr>"
        and s = unchecked_assistant and command = "''ls''" and t = "JInt 45"
        and msg = "''No such file''"]
      unchecked_facts
    by simp
  have f: "\<exists>text. fst (execute_command (sample_env\<lparr>subprocess_run := (\<lambda>c t. Completed ''a'' ''b'' 3)\<rparr>)
                     unchecked_assistant ''ls'') = Inr (text, 3)"
    using execute_command_results [where w = "sample_env\<lparr>subprocess_run := (\<lambda>c t. Completed ''a'' ''b'' 3)\<rparr>"
        and s = unchecked_assistant and command = "''ls''" and t = "JInt 45"
        and out = "''a''" and err = "''b''" and rc = 3 and mo = 2]
      unchecked_facts
    by simp
  have g: "fst (execute_command sample_env text_max_output ''ls'')
       = Inr (''Execution error: '' @ quoted ''>'' @ '' not supported between instances of ''
              @ quoted ''int'' @ '' and '' @ quoted ''str'', 1)"
    using execute_command_results [where w = sample_env and s = text_max_output
        and command = "''ls''" and t = "JInt 45" and out = "''hi\<newline>''" and err = "[]"
        and rc = 0 and v = "JStr ''5''"]
      text_max_output_facts
    by (simp add: sample_env_def)
  show ?thesis using a b c d f g by simp
qed

text \<open>
  C6 as stated fails: with the checks on and confirmation required, the end of the input
  at the prompt raises out of the executor; and with the text \<open>"5"\<close> as \<open>max_output\<close> a
  process that completed with return code 0 is reported as an error with exit code 1.
\<close>

theorem executor_raises_at_prompt:
  "execute_command (sample_env\<lparr>stdin := (\<lambda>c. EndOfInput)\<rparr>) sample_assistant ''ls''
     = (Inl EOFError, [Print ''\<newline>[Safety] Command to execute: ls'',
                       Input ''[Safety] Execute command? (y/N): ''])
   \<and> subprocess_run sample_env ''ls'' (JInt 45) = Completed ''hi\<newline>'' [] 0
   \<and> execute_command sample_env text_max_output ''ls''
       = (Inr (''Execution error: '' @ quoted ''>'' @ '' not supported between instances of ''
               @ quoted ''int'' @ '' and '' @ quoted ''str'', 1),
          [Run ''ls'' (JInt 45)])"
  by code_simp

section \<open>Configuration loading: properties\<close>

lemma map_of_dict_set: "map_of (dict_set d k v) k' = (if k' = k then Some v else map_of d k')"
  by (induction d) auto

lemma map_of_dict_merge_absent:
  "map_of x k = None \<Longrightarrow> map_of (dict_merge d x) k = map_of d k"
  unfolding dict_merge_def
  by (induction x arbitrary: d) (auto simp: map_of_dict_set split: if_splits)

lemma map_of_fold_dict_set_present:
  "distinct (map fst x) \<Longrightarrow> map_of x k = Some v
     \<Longrightarrow> map_of (fold (\<lambda>(k, v) acc. dict_set acc k v) x d) k = Some v"
proof (induction x arbitrary: d)
  case Nil
  then show ?case by simp
next
  case (Cons p x)
  obtain k' v' where p: "p = (k', v')" by (cases p)
  show ?case
  proof (cases "k' = k")
    case True
    with Cons.prems p have "map_of x k = None" and "v' = v"
      by (auto simp: map_of_eq_None_iff)
    then show ?thesis
      using map_of_dict_merge_absent [of x k "dict_set d k' v'"] p True
      by (simp add: dict_merge_def map_of_dict_set)
  next
    case False
    with Cons p show ?thesis by simp
  qed
qed

text \<open>
  C9, as the code has it. Loading never fails and always gives a dictionary. A missing
  file, an unreadable one, content that does not parse and content that is not an object
  give the defaults. For an object, a section the file does not mention is the default
  section, and a key the file supplies has the file's value, whatever that value is.
\<close>

theorem load_config_defaults:
  "(\<exists>c. fst (load_config f) = JObj c)
   \<and> (f = Missing \<or> f = Unreadable m \<or> f = Unparsable m
        \<longrightarrow> fst (load_config f) = JObj default_config)
   \<and> (f = Parsed v \<and> (\<forall>kvs. v \<noteq> JObj kvs) \<longrightarrow> fst (load_config f) = JObj default_config)
   \<and> (f = Parsed (JObj kvs) \<and> map_of kvs sec = None
        \<longrightarrow> getitem (fst (load_config f)) sec = getitem (JObj default_config) sec)
   \<and> (f = Parsed (JObj kvs) \<and> distinct (map fst kvs) \<and> map_of kvs sec = Some d
        \<and> getitem d key = Inr x
        \<longrightarrow> cfg (fst (load_config f)) sec key = Inr x)"
proof (intro conjI impI)
  show "\<exists>c. fst (load_config f) = JObj c"
    by (cases f rule: load_config.cases) simp_all
  show "fst (load_config f) = JObj default_config"
    if "f = Missing \<or> f = Unreadable m \<or> f = Unparsable m"
    using that by auto
  show "fst (load_config f) = JObj default_config"
    if "f = Parsed v \<and> (\<forall>kvs. v \<noteq> JObj kvs)"
    using that by (cases v) simp_all
  show "getitem (fst (load_config f)) sec = getitem (JObj default_config) sec"
    if "f = Parsed (JObj kvs) \<and> map_of kvs sec = None"
    using that by (simp add: map_of_dict_merge_absent)
  show "cfg (fst (load_config f)) sec key = Inr x"
    if "f = Parsed (JObj kvs) \<and> distinct (map fst kvs) \<and> map_of kvs sec = Some d
        \<and> getitem d key = Inr x"
    using that map_of_fold_dict_set_present [of kvs sec d default_config]
    by (simp add: cfg_def dict_merge_def)
qed

theorem load_config_defaults_witness:
  "(\<exists>c. fst (load_config (Unparsable ''Expecting value'')) = JObj c)
   \<and> fst (load_config Missing) = JObj default_config
   \<and> fst (load_config (Unreadable ''Permission denied'')) = JObj default_config
   \<and> fst (load_config (Unparsable ''Expecting value'')) = JObj default_config
   \<and> fst (load_config (Parsed (JArr [JInt 1]))) = JObj default_config
   \<and> getitem (fst (load_config (Parsed (JObj [(''context'', JObj [(''memory_size'', JInt 3)])]))))
        ''security''
       = getitem (JObj default_config) ''security''
   \<and> cfg (fst (load_config (Parsed (JObj [(''context'', JObj [(''memory_size'', JInt 3)])]))))
        ''context'' ''memory_size'' = Inr (JInt 3)"
proof -
  let ?file = "Parsed (JObj [(''context'', JObj [(''memory_size'', JInt 3)])])"
  have a: "\<exists>c. fst (load_config (Unparsable ''Expecting value'')) = JObj c"
    using load_config_defaults [where f = "Unparsable ''Expecting value''", THEN conjunct1] .
  have b: "fst (load_config Missing) = JObj default_config"
    using load_config_defaults [where f = Missing] by blast
  have c: "fst (load_config (Unreadable ''Permission denied'')) = JObj default_config"
    using load_config_defaults [where f = "Unreadable ''Permission denied''"
        and m = "''Permission denied''"] by blast
  have d: "fst (load_config (Unparsable ''Expecting value'')) = JObj default_config"
    using load_config_defaults [where f = "Unparsable ''Expecting value''"
        and m = "''Expecting value''"] by blast
  have e: "fst (load_config (Parsed (JArr [JInt 1]))) = JObj default_config"
    using load_config_defaults [where f = "Parsed (JArr [JInt 1])" and v = "JArr [JInt 1]"]
    by simp
  have f: "getitem (fst (load_config ?file)) ''security'' = getitem (JObj default_config) ''security''"
    using load_config_defaults [where f = ?file and sec = "''security''"
        and kvs = "[(''context'', JObj [(''memory_size'', JInt 3)])]"]
    by simp
  have g: "cfg (fst (load_config ?file)) ''context'' ''memory_size'' = Inr (JInt 3)"
    using load_config_defaults [where f = ?file and sec = "''context''"
        and kvs = "[(''context'', JObj [(''memory_size'', JInt 3)])]"
        and d = "JObj [(''memory_size'', JInt 3)]" and key = "''memory_size''" and x = "JInt 3"]
    by simp
  show ?thesis using a b c d e f g by simp
qed

text \<open>
  C9 as stated fails: nothing validates a value, so an invalid one stays in the
  configuration instead of the default.
\<close>

theorem config_value_not_validated:
  "cfg (fst (load_config (Parsed (JObj [(''context'', JObj [(''memory_size'', JStr ''ten'')])]))))
     ''context'' ''memory_size'' = Inr (JStr ''ten'')
   \<and> cfg (JObj default_config) ''context'' ''memory_size'' = Inr (JInt 10)"
  by code_simp

text \<open>
  The merge is one level deep: a section the file supplies in part replaces the default
  section, so the keys it leaves out have no value at all.
\<close>

lemma partial_section_loses_defaults:
  "cfg (fst (load_config (Parsed (JObj [(''security'', JObj [(''max_output'', JInt 100)])]))))
     ''security'' ''require_confirmation'' = Inl (KeyError ''require_confirmation'')
   \<and> cfg (JObj default_config) ''security'' ''require_confirmation'' = Inr (JBool True)"
  by code_simp

section \<open>Command extraction: properties\<close>

lemma startswith_iff: "startswith s p \<longleftrightarrow> (\<exists>rest. s = p @ rest)"
  by (induction s p rule: startswith.induct) auto

lemma contains_iff: "contains s p \<longleftrightarrow> (\<exists>before rest. s = before @ p @ rest)"
proof (induction s)
  case Nil
  then show ?case by auto
next
  case (Cons x xs)
  show ?case
  proof
    assume "contains (x # xs) p"
    then consider "startswith (x # xs) p" | "contains xs p" by auto
    then show "\<exists>before rest. x # xs = before @ p @ rest"
    proof cases
      case 1
      then obtain rest where "x # xs = p @ rest" by (auto simp: startswith_iff)
      then have "x # xs = [] @ p @ rest" by simp
      then show ?thesis by blast
    next
      case 2
      with Cons.IH obtain before rest where "xs = before @ p @ rest" by auto
      then have "x # xs = (x # before) @ p @ rest" by simp
      then show ?thesis by blast
    qed
  next
    assume "\<exists>before rest. x # xs = before @ p @ rest"
    then obtain before rest where eq: "x # xs = before @ p @ rest" by auto
    show "contains (x # xs) p"
    proof (cases before)
      case Nil
      with eq have "startswith (x # xs) p" by (auto simp: startswith_iff)
      then show ?thesis by simp
    next
      case (Cons y ys)
      with eq have "xs = ys @ p @ rest" by simp
      with Cons.IH have "contains xs p" by blast
      then show ?thesis by simp
    qed
  qed
qed

lemma before_first_sound:
  "before_first s p = Some a \<Longrightarrow> \<exists>rest. s = a @ p @ rest"
proof (induction s arbitrary: a)
  case Nil
  then show ?case by (auto split: if_splits)
next
  case (Cons x xs)
  show ?case
  proof (cases "startswith (x # xs) p")
    case True
    with Cons.prems have "a = []" by simp
    with True show ?thesis by (auto simp: startswith_iff)
  next
    case False
    with Cons.prems obtain a' where a': "before_first xs p = Some a'" "a = x # a'"
      by auto
    from Cons.IH [OF a'(1)] obtain rest where "xs = a' @ p @ rest" by auto
    with a'(2) show ?thesis by auto
  qed
qed

lemma before_first_complete:
  "s = a @ p @ rest \<Longrightarrow> before_first s p \<noteq> None"
proof (induction s arbitrary: a)
  case Nil
  then show ?case by simp
next
  case (Cons x xs)
  show ?case
  proof (cases "startswith (x # xs) p")
    case True
    then show ?thesis by simp
  next
    case False
    with Cons.prems have "a \<noteq> []" by (auto simp: startswith_iff)
    then obtain a' where "a = x # a'" "xs = a' @ p @ rest"
      using Cons.prems by (cases a) auto
    with Cons.IH have "before_first xs p \<noteq> None" by blast
    with False show ?thesis by auto
  qed
qed

lemma fenced_bash_sound:
  "fenced_bash s = Some inner
     \<Longrightarrow> \<exists>before rest. s = before @ ''```bash\<newline>'' @ inner @ ''\<newline>```'' @ rest"
proof (induction s)
  case Nil
  then show ?case by simp
next
  case (Cons x xs)
  let ?op = "''```bash\<newline>''"
  consider (here) "startswith (x # xs) ?op"
      "before_first (drop 8 (x # xs)) ''\<newline>```'' = Some inner"
    | (later) "fenced_bash xs = Some inner"
    using Cons.prems by (auto split: if_splits option.splits)
  then show ?case
  proof cases
    case here
    from here(1) obtain tail where tail: "x # xs = ?op @ tail"
      unfolding startswith_iff by blast
    then have "drop 8 (x # xs) = tail" by simp
    with here(2) obtain rest where "tail = inner @ ''\<newline>```'' @ rest"
      using before_first_sound by blast
    with tail have "x # xs = [] @ ?op @ inner @ ''\<newline>```'' @ rest" by simp
    then show ?thesis by blast
  next
    case later
    with Cons.IH obtain before rest
      where "xs = before @ ?op @ inner @ ''\<newline>```'' @ rest" by blast
    then have "x # xs = (x # before) @ ?op @ inner @ ''\<newline>```'' @ rest" by simp
    then show ?thesis by blast
  qed
qed

lemma fenced_bash_complete:
  "s = before @ ''```bash\<newline>'' @ inner @ ''\<newline>```'' @ rest \<Longrightarrow> fenced_bash s \<noteq> None"
proof (induction s arbitrary: before)
  case Nil
  then show ?case by simp
next
  case (Cons x xs)
  let ?op = "''```bash\<newline>''"
  show ?case
  proof (cases before)
    case Nil
    with Cons.prems have eq: "x # xs = ?op @ (inner @ ''\<newline>```'' @ rest)" by simp
    then have st: "startswith (x # xs) ?op" unfolding startswith_iff by blast
    from eq have "drop 8 (x # xs) = [] @ inner @ ''\<newline>```'' @ rest" by simp
    then have "before_first (drop 8 (x # xs)) ''\<newline>```'' \<noteq> None"
      using before_first_complete [of "drop 8 (x # xs)" inner "''\<newline>```''" rest] by simp
    with st show ?thesis by (auto simp del: startswith.simps before_first.simps)
  next
    case (Cons y ys)
    with Cons.prems have "xs = ys @ ?op @ inner @ ''\<newline>```'' @ rest" by simp
    with Cons.IH have "fenced_bash xs \<noteq> None" by blast
    then show ?thesis by (auto split: option.splits)
  qed
qed

lemma fenced_bash_iff: "fenced_bash s \<noteq> None \<longleftrightarrow> has_fence s"
  unfolding has_fence_def using fenced_bash_sound fenced_bash_complete
  by (metis not_Some_eq)

lemma fenced_bash_contains: "fenced_bash s = Some inner \<Longrightarrow> contains s ''```bash''"
proof -
  assume "fenced_bash s = Some inner"
  then obtain before rest where "s = before @ ''```bash\<newline>'' @ inner @ ''\<newline>```'' @ rest"
    using fenced_bash_sound by blast
  then have "s = before @ ''```bash'' @ (''\<newline>'' @ inner @ ''\<newline>```'' @ rest)" by simp
  then show ?thesis unfolding contains_iff by blast
qed

lemma extract_command_cases:
  "extract_command response =
     (case fenced_bash response of
        Some inner \<Rightarrow> Some (strip inner)
      | None \<Rightarrow> if startswith response ''$ '' then Some (strip (drop 2 response)) else None)"
  using fenced_bash_contains [of response]
  by (auto simp: extract_command_def split: option.splits)

section \<open>The orchestrator: properties\<close>

lemma generate_response_events:
  "generate_response w s p = (r, tr)
     \<Longrightarrow> Run c t \<notin> set tr \<and> Input q \<notin> set tr \<and> Print q \<notin> set tr"
  by (auto simp: generate_response_def split: sum.splits api_outcome.splits)

lemma handle_query_model:
  assumes "cfg (config s) ''context'' ''memory_size'' = Inr (JInt m)"
    and "\<not> special_request user_input"
  shows "handle_query w s user_input
           = ask_model w (snd (add_to_history s ''user'' user_input)) user_input"
  using assms by (simp add: handle_query_def add_to_history_int special_request_def)

lemma ask_model_no_command:
  assumes "cfg (config s1) ''context'' ''memory_size'' = Inr (JInt m)"
    and "generate_response w s1 user_input = (response, tr)"
    and "extract_command response = None \<or> extract_command response = Some []"
  shows "ask_model w s1 user_input
           = (Inr response, snd (add_to_history s1 ''assistant'' response), tr)"
  using assms by (auto simp: ask_model_def add_to_history_int)

lemma show_int_one: "show_int 1 = ''1''"
  by code_simp

lemma blocked_text_short:
  "take 500 ''Command blocked by safety system'' = ''Command blocked by safety system''"
  "\<not> 500 < length ''Command blocked by safety system''"
  by simp_all

lemma ask_model_blocked:
  assumes "cfg (config s1) ''context'' ''memory_size'' = Inr (JInt m)"
    and "generate_response w s1 user_input = (response, tr)"
    and "extract_command response = Some command"
    and "dangerous command"
    and "safety_checks s1"
  shows "ask_model w s1 user_input =
     (Inr (response @ ''\<newline>\<newline>Command failed (exit 1):\<newline>```bash\<newline>'' @ command
           @ ''\<newline>```''),
      snd (add_to_history (snd (add_to_history s1 ''assistant'' response)) ''system''
             (''Command executed:\<newline>```bash\<newline>'' @ command
              @ ''\<newline>```\<newline>Exit code: 1\<newline>Output:\<newline>Command blocked by safety system'')),
      tr @ [LogInfo (''Command executed (exit=1): '' @ command
                     @ ''\<newline>Output:\<newline>Command blocked by safety system'')])"
proof -
  define s2 where "s2 = snd (add_to_history s1 ''assistant'' response)"
  have a2: "add_to_history s1 ''assistant'' response = (Inr (), s2)"
    using assms(1) by (simp add: add_to_history_int s2_def)
  have ne: "command \<noteq> []" using assms(4) not_dangerous_empty by auto
  have "safety_checks s2" using assms(5) by (simp add: s2_def)
  then have ex: "execute_command w s2 command = (Inr (''Command blocked by safety system'', 1), [])"
    using assms(4) by (simp add: execute_command_def is_safe_def ne)
  have c2: "cfg (config s2) ''context'' ''memory_size'' = Inr (JInt m)"
    using assms(1) by (simp add: s2_def)
  define memo where "memo = ''Command executed:\<newline>```bash\<newline>'' @ command
              @ ''\<newline>```\<newline>Exit code: 1\<newline>Output:\<newline>Command blocked by safety system''"
  define s3 where "s3 = snd (add_to_history s2 ''system'' memo)"
  have a3: "add_to_history s2 ''system'' memo = (Inr (), s3)"
    using c2 by (simp add: add_to_history_int s3_def)
  have "ask_model w s1 user_input =
     (Inr (response @ ''\<newline>\<newline>Command failed (exit 1):\<newline>```bash\<newline>'' @ command
           @ ''\<newline>```''),
      s3,
      tr @ [LogInfo (''Command executed (exit=1): '' @ command
                     @ ''\<newline>Output:\<newline>Command blocked by safety system'')])"
    using a3 unfolding memo_def
    by (simp add: ask_model_def assms(2,3) a2 ne ex show_int_one blocked_text_short)
  then show ?thesis by (simp add: s3_def s2_def memo_def)
qed

lemma sample_memory: "cfg (config sample_assistant) ''context'' ''memory_size'' = Inr (JInt 10)"
  by (simp add: cfg_def default_config_def)

text \<open>
  C3, as the code has it. With the safety checks on, a command extracted from the reply
  that matches a danger pattern is refused by the gate without a prompt and never run:
  the events of the query are those of the model call and one log line. The refusal text
  \<open>Command blocked by safety system\<close> goes to the log and to the system turn appended to
  the conversation; the response to the user is the model's text followed by
  \<open>Command failed (exit 1)\<close> and the command.
\<close>

theorem blocked_command_response:
  assumes "cfg (config s) ''context'' ''memory_size'' = Inr (JInt m)"
    and "\<not> special_request user_input"
    and "safety_checks s"
    and "generate_response w (snd (add_to_history s ''user'' user_input)) user_input
           = (response, tr)"
    and "extract_command response = Some command"
    and "dangerous command"
  shows "is_safe w s command = (Inr False, [])
     \<and> handle_query w s user_input =
         (Inr (response @ ''\<newline>\<newline>Command failed (exit 1):\<newline>```bash\<newline>'' @ command
               @ ''\<newline>```''),
          snd (add_to_history
                 (snd (add_to_history (snd (add_to_history s ''user'' user_input))
                         ''assistant'' response))
                 ''system''
                 (''Command executed:\<newline>```bash\<newline>'' @ command
                  @ ''\<newline>```\<newline>Exit code: 1\<newline>Output:\<newline>Command blocked by safety system'')),
          tr @ [LogInfo (''Command executed (exit=1): '' @ command
                         @ ''\<newline>Output:\<newline>Command blocked by safety system'')])
     \<and> (\<forall>c t. Run c t \<notin> set (snd (snd (handle_query w s user_input))))
     \<and> (\<forall>p. Input p \<notin> set (snd (snd (handle_query w s user_input))))"
proof -
  let ?s1 = "snd (add_to_history s ''user'' user_input)"
  have c1: "cfg (config ?s1) ''context'' ''memory_size'' = Inr (JInt m)"
    using assms(1) by simp
  have sc: "safety_checks ?s1" using assms(3) by simp
  have hq: "handle_query w s user_input = ask_model w ?s1 user_input"
    using handle_query_model [OF assms(1,2)] .
  note am = ask_model_blocked [OF c1 assms(4,5,6) sc]
  have ev: "\<And>c t. Run c t \<notin> set tr" "\<And>p. Input p \<notin> set tr"
    using generate_response_events [OF assms(4)] by auto
  have "is_safe w s command = (Inr False, [])"
    using assms(6) by (simp add: is_safe_def)
  then show ?thesis
    unfolding hq am using ev by simp
qed

theorem blocked_command_response_witness:
  "is_safe sample_env sample_assistant ''rm -rf /'' = (Inr False, [])
   \<and> fst (handle_query sample_env sample_assistant ''clean up'')
       = Inr (''```bash\<newline>rm -rf /\<newline>```'' @ ''\<newline>\<newline>Command failed (exit 1):\<newline>```bash\<newline>''
              @ ''rm -rf /'' @ ''\<newline>```'')
   \<and> (\<forall>c t. Run c t \<notin> set (snd (snd (handle_query sample_env sample_assistant ''clean up''))))
   \<and> (\<forall>p. Input p \<notin> set (snd (snd (handle_query sample_env sample_assistant ''clean up''))))"
proof -
  let ?s1 = "snd (add_to_history sample_assistant ''user'' ''clean up'')"
  have ns: "\<not> special_request ''clean up''" by code_simp
  have "fst (generate_response sample_env ?s1 ''clean up'') = ''```bash\<newline>rm -rf /\<newline>```''"
    by code_simp
  then have gr: "generate_response sample_env ?s1 ''clean up''
      = (''```bash\<newline>rm -rf /\<newline>```'', snd (generate_response sample_env ?s1 ''clean up''))"
    by (metis prod.collapse)
  have ec: "extract_command ''```bash\<newline>rm -rf /\<newline>```'' = Some ''rm -rf /''"
    by code_simp
  note th = blocked_command_response [OF sample_memory ns sample_safety gr ec dangerous_rm]
  have a: "is_safe sample_env sample_assistant ''rm -rf /'' = (Inr False, [])"
    using th [THEN conjunct1] .
  have b: "fst (handle_query sample_env sample_assistant ''clean up'')
       = Inr (''```bash\<newline>rm -rf /\<newline>```'' @ ''\<newline>\<newline>Command failed (exit 1):\<newline>```bash\<newline>''
              @ ''rm -rf /'' @ ''\<newline>```'')"
    by (simp only: th [THEN conjunct2, THEN conjunct1] fst_conv)
  show ?thesis
    using a b th [THEN conjunct2, THEN conjunct2] by blast
qed

text \<open>
  C3 as stated fails: the response carries the exit status 1 and not the refusal
  text.
\<close>

theorem blocked_response_has_exit_status:
  "dangerous ''rm -rf /'' \<and> safety_checks sample_assistant
   \<and> extract_command ''```bash\<newline>rm -rf /\<newline>```'' = Some ''rm -rf /''
   \<and> fst (handle_query sample_env sample_assistant ''clean up'')
       = Inr ''```bash\<newline>rm -rf /\<newline>```\<newline>\<newline>Command failed (exit 1):\<newline>```bash\<newline>rm -rf /\<newline>```''
   \<and> contains ''```bash\<newline>rm -rf /\<newline>```\<newline>\<newline>Command failed (exit 1):\<newline>```bash\<newline>rm -rf /\<newline>```''
         ''(exit 1)''
   \<and> \<not> contains ''```bash\<newline>rm -rf /\<newline>```\<newline>\<newline>Command failed (exit 1):\<newline>```bash\<newline>rm -rf /\<newline>```''
         ''blocked''"
  by code_simp

lemma before_first_least:
  "before_first s p = Some a \<Longrightarrow> s = a' @ p @ r \<Longrightarrow> length a \<le> length a'"
proof (induction s arbitrary: a a')
  case Nil
  then show ?case by (auto split: if_splits)
next
  case (Cons x xs)
  show ?case
  proof (cases "startswith (x # xs) p")
    case True
    with Cons.prems(1) show ?thesis by simp
  next
    case False
    with Cons.prems(1) obtain a0 where a0: "before_first xs p = Some a0" "a = x # a0"
      by auto
    from False Cons.prems(2) have "a' \<noteq> []" by (auto simp: startswith_iff)
    then obtain a1 where a1: "a' = x # a1" "xs = a1 @ p @ r"
      using Cons.prems(2) by (cases a') auto
    from Cons.IH [OF a0(1) a1(2)] a0(2) a1(1) show ?thesis by simp
  qed
qed

lemma fenced_bash_first:
  "fenced_bash s = Some inner \<Longrightarrow> \<exists>before rest. first_fence s before inner rest"
proof (induction s)
  case Nil
  then show ?case by simp
next
  case (Cons x xs)
  let ?op = "''```bash\<newline>''"
  let ?cl = "''\<newline>```''"
  consider (here) "startswith (x # xs) ?op"
      "before_first (drop 8 (x # xs)) ?cl = Some inner"
    | (later) "fenced_bash xs = Some inner"
        "\<not> startswith (x # xs) ?op \<or> before_first (drop 8 (x # xs)) ?cl = None"
    using Cons.prems by (auto split: if_splits option.splits)
  then show ?case
  proof cases
    case here
    from here(1) obtain tail where tail: "x # xs = ?op @ tail"
      unfolding startswith_iff by blast
    then have d: "drop 8 (x # xs) = tail" by simp
    with here(2) obtain rest where rest: "tail = inner @ ?cl @ rest"
      using before_first_sound by blast
    have eq: "x # xs = [] @ ?op @ inner @ ?cl @ rest" using tail rest by simp
    have least: "length inner \<le> length i"
      if "x # xs = b @ ?op @ i @ ?cl @ r" and "length b = 0" for b i r
    proof -
      from that have "x # xs = ?op @ i @ ?cl @ r" by simp
      with tail have "tail = i @ ?cl @ r" by simp
      with here(2) d show ?thesis using before_first_least by blast
    qed
    have "first_fence (x # xs) [] inner rest"
      unfolding first_fence_def using eq least by auto
    then show ?thesis by blast
  next
    case later
    from Cons.IH [OF later(1)] obtain before rest
      where ff: "first_fence xs before inner rest" by blast
    then have eq: "x # xs = (x # before) @ ?op @ inner @ ?cl @ rest"
      by (simp add: first_fence_def)
    have least: "length (x # before) \<le> length b
        \<and> (length b = length (x # before) \<longrightarrow> length inner \<le> length i)"
      if dec: "x # xs = b @ ?op @ i @ ?cl @ r" for b i r
    proof (cases b)
      case Nil
      with dec have e: "x # xs = ?op @ (i @ ?cl @ r)" by simp
      then have st: "startswith (x # xs) ?op" unfolding startswith_iff by blast
      from e have "drop 8 (x # xs) = [] @ i @ ?cl @ r" by simp
      then have "before_first (drop 8 (x # xs)) ?cl \<noteq> None"
        using before_first_complete [of "drop 8 (x # xs)" i ?cl r] by simp
      with st later(2) show ?thesis by simp
    next
      case (Cons y ys)
      with dec have "xs = ys @ ?op @ i @ ?cl @ r" by simp
      with ff have "length before \<le> length ys
          \<and> (length ys = length before \<longrightarrow> length inner \<le> length i)"
        unfolding first_fence_def by blast
      with Cons show ?thesis by simp
    qed
    have "first_fence (x # xs) (x # before) inner rest"
      unfolding first_fence_def using eq least by blast
    then show ?thesis by blast
  qed
qed

lemma first_fence_unique:
  assumes "first_fence response before inner rest"
    and "first_fence response before' inner' rest'"
  shows "before' = before \<and> inner' = inner"
proof -
  let ?op = "''```bash\<newline>''"
  let ?cl = "''\<newline>```''"
  have e1: "response = before @ ?op @ inner @ ?cl @ rest"
    and e2: "response = before' @ ?op @ inner' @ ?cl @ rest'"
    using assms by (simp_all add: first_fence_def)
  have l1: "length before \<le> length before'"
    and l1': "length before' = length before \<longrightarrow> length inner \<le> length inner'"
    using assms(1) e2 unfolding first_fence_def by blast+
  have l2: "length before' \<le> length before"
    and l2': "length before = length before' \<longrightarrow> length inner' \<le> length inner"
    using assms(2) e1 unfolding first_fence_def by blast+
  from l1 l2 have lb: "length before' = length before" by simp
  with l1' l2' have li: "length inner' = length inner" by simp
  from e1 e2 lb have b: "before' = before"
    and tail: "?op @ inner' @ ?cl @ rest' = ?op @ inner @ ?cl @ rest"
    by (metis append_eq_append_conv)+
  from tail have "inner' @ ?cl @ rest' = inner @ ?cl @ rest" by simp
  with li have "inner' = inner" by (metis append_eq_append_conv)
  with b show ?thesis by simp
qed

lemma extract_first_fence:
  assumes "first_fence response before inner rest"
  shows "extract_command response = Some (strip inner)"
proof -
  from assms have "has_fence response"
    unfolding first_fence_def has_fence_def by blast
  then obtain inner0 where f: "fenced_bash response = Some inner0"
    using fenced_bash_iff by auto
  then obtain b0 r0 where "first_fence response b0 inner0 r0"
    using fenced_bash_first by blast
  with assms have "inner0 = inner" using first_fence_unique by blast
  with f show ?thesis by (simp add: extract_command_cases)
qed

lemma generate_response_content:
  assumes "cfg (config s) ''api'' ''ollama_endpoint'' = Inr endpoint"
    and "cfg (config s) ''api'' ''timeout'' = Inr t"
    and "requests_post w endpoint (context s) t = Content c"
  shows "generate_response w s p = (strip c, [Post endpoint (context s) t])"
  using assms by (simp add: generate_response_def)

lemma sample_api:
  "cfg (config sample_assistant) ''api'' ''ollama_endpoint''
     = Inr (JStr ''http://localhost:11434/api/chat'')"
  "cfg (config sample_assistant) ''api'' ''timeout'' = Inr (JInt 30)"
  by (simp_all add: cfg_def default_config_def)

text \<open>
  C7, as the code has it. A response that holds a fenced \<open>bash\<close> block gives the stripped
  inner text of its first fence; otherwise a response that itself begins with the prompt
  marker gives all the text after the marker, stripped, whatever lines follow; otherwise
  nothing is extracted. When nothing is extracted from the model's text, stripped as
  \<open>_generate_response\<close> strips it, the query returns that stripped text and runs nothing:
  its one event is the call of the model.
\<close>

theorem extract_command_order:
  "(first_fence response before inner rest \<longrightarrow> extract_command response = Some (strip inner))
   \<and> (has_fence response \<longrightarrow> (\<exists>b i r. first_fence response b i r))
   \<and> (\<not> has_fence response \<and> startswith response ''$ ''
        \<longrightarrow> extract_command response = Some (strip (drop 2 response)))
   \<and> (\<not> has_fence response \<and> \<not> startswith response ''$ ''
        \<longrightarrow> extract_command response = None)
   \<and> (cfg (config s) ''context'' ''memory_size'' = Inr (JInt m)
        \<and> \<not> special_request user_input
        \<and> cfg (config s) ''api'' ''ollama_endpoint'' = Inr endpoint
        \<and> cfg (config s) ''api'' ''timeout'' = Inr t
        \<and> requests_post w endpoint (context (snd (add_to_history s ''user'' user_input))) t
            = Content c
        \<and> extract_command (strip c) = None
        \<longrightarrow> fst (handle_query w s user_input) = Inr (strip c)
            \<and> snd (snd (handle_query w s user_input))
                = [Post endpoint (context (snd (add_to_history s ''user'' user_input))) t])"
proof (intro conjI impI)
  assume "first_fence response before inner rest"
  then show "extract_command response = Some (strip inner)"
    by (rule extract_first_fence)
next
  assume "has_fence response"
  then obtain inner0 where "fenced_bash response = Some inner0"
    using fenced_bash_iff by auto
  then show "\<exists>b i r. first_fence response b i r"
    using fenced_bash_first by blast
next
  assume "\<not> has_fence response \<and> startswith response ''$ ''"
  then show "extract_command response = Some (strip (drop 2 response))"
    using fenced_bash_iff [of response] by (simp add: extract_command_cases)
next
  assume "\<not> has_fence response \<and> \<not> startswith response ''$ ''"
  then show "extract_command response = None"
    using fenced_bash_iff [of response] by (simp add: extract_command_cases)
next
  assume h: "cfg (config s) ''context'' ''memory_size'' = Inr (JInt m)
        \<and> \<not> special_request user_input
        \<and> cfg (config s) ''api'' ''ollama_endpoint'' = Inr endpoint
        \<and> cfg (config s) ''api'' ''timeout'' = Inr t
        \<and> requests_post w endpoint (context (snd (add_to_history s ''user'' user_input))) t
            = Content c
        \<and> extract_command (strip c) = None"
  let ?s1 = "snd (add_to_history s ''user'' user_input)"
  from h have c1: "cfg (config ?s1) ''context'' ''memory_size'' = Inr (JInt m)" by simp
  have gr: "generate_response w ?s1 user_input = (strip c, [Post endpoint (context ?s1) t])"
    using generate_response_content [of ?s1 endpoint t w c user_input] h by simp
  have hq: "handle_query w s user_input = ask_model w ?s1 user_input"
    using handle_query_model h by blast
  have am: "ask_model w ?s1 user_input
      = (Inr (strip c), snd (add_to_history ?s1 ''assistant'' (strip c)),
         [Post endpoint (context ?s1) t])"
    using ask_model_no_command [OF c1 gr] h by blast
  show "fst (handle_query w s user_input) = Inr (strip c)" by (simp add: hq am)
  show "snd (snd (handle_query w s user_input)) = [Post endpoint (context ?s1) t]"
    by (simp add: hq am)
qed

theorem extract_command_order_witness:
  "extract_command ''```bash\<newline>ls\<newline>```\<newline>```python\<newline>x\<newline>```'' = Some (strip ''ls'')
   \<and> (\<exists>b i r. first_fence ''```bash\<newline>ls\<newline>```\<newline>```python\<newline>x\<newline>```'' b i r)
   \<and> extract_command ''$ ls -la '' = Some (strip (drop 2 ''$ ls -la ''))
   \<and> extract_command ''Hello there.'' = None
   \<and> fst (handle_query chat_env sample_assistant ''hello'') = Inr (strip ''  Hello there.  '')
   \<and> snd (snd (handle_query chat_env sample_assistant ''hello''))
       = [Post (JStr ''http://localhost:11434/api/chat'')
            (context (snd (add_to_history sample_assistant ''user'' ''hello''))) (JInt 30)]"
proof -
  let ?two = "''```bash\<newline>ls\<newline>```\<newline>```python\<newline>x\<newline>```''"
  have fb: "fenced_bash ?two = Some ''ls''" by code_simp
  then obtain b r where ff: "first_fence ?two b ''ls'' r"
    using fenced_bash_first by blast
  have a: "extract_command ?two = Some (strip ''ls'')"
    using extract_command_order [where response = ?two and before = b and inner = "''ls''"
        and rest = r, THEN conjunct1] ff
    by blast
  from fb have f1: "has_fence ?two" using fenced_bash_iff [of ?two] by simp
  have a': "\<exists>b i r. first_fence ?two b i r"
    using extract_command_order [where response = ?two, THEN conjunct2, THEN conjunct1] f1
    by blast
  have "fenced_bash ''$ ls -la '' = None" by code_simp
  then have f2: "\<not> has_fence ''$ ls -la ''"
    using fenced_bash_iff by blast
  have s2: "startswith ''$ ls -la '' ''$ ''" by simp
  have "fenced_bash ''Hello there.'' = None" by code_simp
  then have f3: "\<not> has_fence ''Hello there.''"
    using fenced_bash_iff by blast
  have s3: "\<not> startswith ''Hello there.'' ''$ ''" by simp
  have b: "extract_command ''$ ls -la '' = Some (strip (drop 2 ''$ ls -la ''))"
    using extract_command_order
      [where response = "''$ ls -la ''", THEN conjunct2, THEN conjunct2, THEN conjunct1] f2 s2
    by blast
  have c: "extract_command ''Hello there.'' = None"
    using extract_command_order
      [where response = "''Hello there.''",
       THEN conjunct2, THEN conjunct2, THEN conjunct2, THEN conjunct1] f3 s3
    by blast
  let ?s1 = "snd (add_to_history sample_assistant ''user'' ''hello'')"
  have ns: "\<not> special_request ''hello''" by code_simp
  have st: "strip ''  Hello there.  '' = ''Hello there.''" by code_simp
  have rp: "requests_post chat_env (JStr ''http://localhost:11434/api/chat'') (context ?s1) (JInt 30)
      = Content ''  Hello there.  ''"
    by (simp add: chat_env_def)
  have ec: "extract_command (strip ''  Hello there.  '') = None"
    using c st by simp
  have d: "fst (handle_query chat_env sample_assistant ''hello'') = Inr (strip ''  Hello there.  '')
      \<and> snd (snd (handle_query chat_env sample_assistant ''hello''))
       = [Post (JStr ''http://localhost:11434/api/chat'') (context ?s1) (JInt 30)]"
    using extract_command_order
      [where s = sample_assistant and m = 10 and user_input = "''hello''" and w = chat_env
         and endpoint = "JStr ''http://localhost:11434/api/chat''" and t = "JInt 30"
         and c = "''  Hello there.  ''",
       THEN conjunct2, THEN conjunct2, THEN conjunct2, THEN conjunct2]
      sample_memory ns sample_api rp ec
    by blast
  show ?thesis using a a' b c d by blast
qed

text \<open>
  C7 as stated fails: the marker counts only at the very start of the response, and then
  the rest of the whole response is taken, not the rest of that line; and the text
  returned when nothing is extracted is the model's text without its surrounding
  whitespace.
\<close>

theorem extract_command_whole_text:
  "extract_command ''$ ls\<newline>more text'' = Some ''ls\<newline>more text''
   \<and> extract_command ''Run this:\<newline>$ ls'' = None
   \<and> requests_post chat_env (JStr ''http://localhost:11434/api/chat'')
         (context (snd (add_to_history sample_assistant ''user'' ''hello''))) (JInt 30)
       = Content ''  Hello there.  ''
   \<and> extract_command ''  Hello there.  '' = None
   \<and> fst (handle_query chat_env sample_assistant ''hello'') = Inr ''Hello there.''"
  by code_simp









lemma handle_query_special:
  assumes a1: "add_to_history s ''user'' user_input = (Inr (), s1)"
    and sp: "special_request user_input"
  shows "handle_query w s user_input =
     (if contains (lower user_input) ''toggle safety''
      then (Inr (''Safety checks have been ''
                 @ (if safety_checks s then ''DISABLED'' else ''ENABLED'') @ ''.''),
            s1\<lparr>safety_checks := \<not> safety_checks s\<rparr>, [])
      else if contains (lower user_input) ''system information''
      then (Inr (''System Information:\<newline>''
                 @ join ''\<newline>'' (map (\<lambda>(k, v). k @ '': '' @ show_val v)
                                        (get_system_info w s1))),
            s1, [])
      else if contains (lower user_input) ''conversation history''
      then (Inr (''Recent Conversation History:\<newline>''
                 @ join ''\<newline>'' (map history_line (enumerate 0 (drop 1 (context s1))))),
            s1, [])
      else (Inr ''EXIT_REQUEST'', s1, []))"
proof -
  have sc: "safety_checks s1 = safety_checks s"
    using add_to_history_safety [of s "''user''" user_input] a1 by simp
  show ?thesis
  proof (cases "contains (lower user_input) ''toggle safety''")
    case True
    then show ?thesis by (simp add: handle_query_def a1 sc Let_def)
  next
    case nt: False
    show ?thesis
    proof (cases "contains (lower user_input) ''system information''")
      case True
      with nt show ?thesis by (simp add: handle_query_def a1)
    next
      case ni: False
      show ?thesis
      proof (cases "contains (lower user_input) ''conversation history''")
        case True
        with nt ni show ?thesis by (simp add: handle_query_def a1)
      next
        case False
        with nt ni sp have "contains (lower user_input) ''exit'' \<or> contains (lower user_input) ''quit''"
          by (simp add: special_request_def)
        with nt ni False show ?thesis by (simp add: handle_query_def a1)
      qed
    qed
  qed
qed

lemma add_to_history_exact:
  assumes "cfg (config s) ''context'' ''memory_size'' = Inr (JInt (int m))"
    and "1 \<le> m"
    and "context s = first # rest"
  shows "add_to_history s r c
           = (Inr (), s\<lparr>context := first # drop (Suc (length rest) - m) (rest @ [Turn r c])\<rparr>)"
proof (cases "m \<le> length rest")
  case True
  have "(if - int m < 0 then nat (int (length (first # rest @ [Turn r c])) + - int m)
         else nat (- int m)) = Suc (Suc (length rest) - m)"
    using True assms(2) by auto
  then have h: "slice_from (first # rest @ [Turn r c]) (- int m)
      = drop (Suc (length rest) - m) (rest @ [Turn r c])"
    unfolding slice_from_def by (simp only: drop_Suc_Cons)
  have "int (length (context s)) + 1 > int m + 1"
    using True assms(3) by simp
  then show ?thesis
    using assms(1,3) h by (simp add: add_to_history_int del: drop_append)
next
  case False
  then show ?thesis
    using assms by (simp add: add_to_history_int)
qed

text \<open>
  C10, as the code has it. A user input that holds one of the control phrases gets its
  canned response (or the exit sentinel) with no event at all, so the model is not
  called. For a memory size of at least one, the conversation after the query is the first
  turn followed by the last \<open>memory_size\<close> of the other turns with the user's turn at their
  end: while the store has room that is the old conversation plus the user's turn, and
  when it is full the oldest turns after the first are dropped. No other turn is added;
  the safety flag is flipped in the toggle case, and nothing else of the state changes.
\<close>

theorem special_request_frame:
  assumes "cfg (config s) ''context'' ''memory_size'' = Inr (JInt (int m))"
    and "1 \<le> m"
    and "context s = first # rest"
    and "special_request user_input"
  shows "snd (snd (handle_query w s user_input)) = []
     \<and> fst (snd (handle_query w s user_input))
         = s\<lparr>context := first # drop (Suc (length rest) - m) (rest @ [Turn ''user'' user_input]),
              safety_checks :=
                (if contains (lower user_input) ''toggle safety''
                 then \<not> safety_checks s else safety_checks s)\<rparr>
     \<and> (length rest < m
          \<longrightarrow> context (fst (snd (handle_query w s user_input)))
               = context s @ [Turn ''user'' user_input])
     \<and> (m \<le> length rest
          \<longrightarrow> context (fst (snd (handle_query w s user_input)))
               = first # drop (Suc (length rest) - m) rest @ [Turn ''user'' user_input])
     \<and> fst (handle_query w s user_input) =
         Inr (if contains (lower user_input) ''toggle safety''
              then ''Safety checks have been ''
                   @ (if safety_checks s then ''DISABLED'' else ''ENABLED'') @ ''.''
              else if contains (lower user_input) ''system information''
              then ''System Information:\<newline>''
                   @ join ''\<newline>''
                       (map (\<lambda>(k, v). k @ '': '' @ show_val v)
                          (get_system_info w
                             (s\<lparr>context := first # drop (Suc (length rest) - m)
                                                       (rest @ [Turn ''user'' user_input])\<rparr>)))
              else if contains (lower user_input) ''conversation history''
              then ''Recent Conversation History:\<newline>''
                   @ join ''\<newline>''
                       (map history_line
                          (enumerate 0
                             (drop (Suc (length rest) - m) (rest @ [Turn ''user'' user_input]))))
              else ''EXIT_REQUEST'')"
proof -
  define s1 where
    "s1 = s\<lparr>context := first # drop (Suc (length rest) - m) (rest @ [Turn ''user'' user_input])\<rparr>"
  have a1: "add_to_history s ''user'' user_input = (Inr (), s1)"
    unfolding s1_def by (rule add_to_history_exact [OF assms(1-3)])
  note hq = handle_query_special [OF a1 assms(4), of w]
  have ctx1: "context s1 = first # drop (Suc (length rest) - m) (rest @ [Turn ''user'' user_input])"
    by (simp add: s1_def)
  have c1: "snd (snd (handle_query w s user_input)) = []"
    unfolding hq by simp
  have c2: "fst (snd (handle_query w s user_input))
         = s1\<lparr>safety_checks :=
                (if contains (lower user_input) ''toggle safety''
                 then \<not> safety_checks s else safety_checks s)\<rparr>"
    unfolding hq by (simp add: s1_def)
  have ctx: "context (fst (snd (handle_query w s user_input))) = context s1"
    unfolding hq by simp
  have c3: "context (fst (snd (handle_query w s user_input)))
               = context s @ [Turn ''user'' user_input]" if "length rest < m"
    unfolding ctx ctx1 using that assms(3) by simp
  have c4: "context (fst (snd (handle_query w s user_input)))
               = first # drop (Suc (length rest) - m) rest @ [Turn ''user'' user_input]"
    if "m \<le> length rest"
    unfolding ctx ctx1 using that assms(2) by simp
  have c5: "fst (handle_query w s user_input) =
         Inr (if contains (lower user_input) ''toggle safety''
              then ''Safety checks have been ''
                   @ (if safety_checks s then ''DISABLED'' else ''ENABLED'') @ ''.''
              else if contains (lower user_input) ''system information''
              then ''System Information:\<newline>''
                   @ join ''\<newline>''
                       (map (\<lambda>(k, v). k @ '': '' @ show_val v) (get_system_info w s1))
              else if contains (lower user_input) ''conversation history''
              then ''Recent Conversation History:\<newline>''
                   @ join ''\<newline>''
                       (map history_line
                          (enumerate 0
                             (drop (Suc (length rest) - m) (rest @ [Turn ''user'' user_input]))))
              else ''EXIT_REQUEST'')"
    unfolding hq by (simp add: ctx1)
  from c1 c2 c3 c4 c5 show ?thesis
    unfolding s1_def [symmetric] by (intro conjI impI)
qed

theorem special_request_frame_witness:
  "snd (snd (handle_query sample_env sample_assistant ''Please TOGGLE SAFETY now'')) = []
   \<and> fst (handle_query sample_env sample_assistant ''Please TOGGLE SAFETY now'')
       = Inr ''Safety checks have been DISABLED.''
   \<and> context (fst (snd (handle_query sample_env sample_assistant ''Please TOGGLE SAFETY now'')))
       = context sample_assistant @ [Turn ''user'' ''Please TOGGLE SAFETY now'']
   \<and> snd (snd (handle_query sample_env sample_assistant ''how do I exit vim'')) = []
   \<and> fst (handle_query sample_env sample_assistant ''how do I exit vim'') = Inr ''EXIT_REQUEST''
   \<and> context (fst (snd (handle_query sample_env sample_assistant ''how do I exit vim'')))
       = context sample_assistant @ [Turn ''user'' ''how do I exit vim'']
   \<and> safety_checks (fst (snd (handle_query sample_env sample_assistant ''how do I exit vim'')))
   \<and> context (fst (snd (handle_query sample_env
                           (sample_assistant\<lparr>context := [Turn ''system'' ''s'', Turn ''user'' ''a'']\<rparr>
                              \<lparr>config := JObj [(''context'', JObj [(''memory_size'', JInt 1)])]\<rparr>)
                           ''quit'')))
       = [Turn ''system'' ''s'', Turn ''user'' ''quit'']"
proof -
  obtain first where ctx: "context sample_assistant = first # []"
    by (simp add: sample_assistant_def init_def)
  have mem: "cfg (config sample_assistant) ''context'' ''memory_size'' = Inr (JInt (int 10))"
    using sample_memory by simp
  have t1: "contains (lower ''Please TOGGLE SAFETY now'') ''toggle safety''" by code_simp
  then have sp1: "special_request ''Please TOGGLE SAFETY now''"
    by (simp add: special_request_def)
  have t2: "\<not> contains (lower ''how do I exit vim'') ''toggle safety''"
    "\<not> contains (lower ''how do I exit vim'') ''system information''"
    "\<not> contains (lower ''how do I exit vim'') ''conversation history''"
    "contains (lower ''how do I exit vim'') ''exit''"
    by code_simp+
  then have sp2: "special_request ''how do I exit vim''"
    by (simp add: special_request_def)
  have sp3: "special_request ''quit''" by code_simp
  have one: "(1::nat) \<le> 10" by simp
  note th1 = special_request_frame [OF mem one ctx sp1, of sample_env]
  note th2 = special_request_frame [OF mem one ctx sp2, of sample_env]
  have a: "snd (snd (handle_query sample_env sample_assistant ''Please TOGGLE SAFETY now'')) = []"
    using th1 [THEN conjunct1] .
  have b: "fst (handle_query sample_env sample_assistant ''Please TOGGLE SAFETY now'')
       = Inr ''Safety checks have been DISABLED.''"
    using th1 [THEN conjunct2, THEN conjunct2, THEN conjunct2, THEN conjunct2]
    by (simp only: t1 if_True sample_safety append.simps)
  have c: "context (fst (snd (handle_query sample_env sample_assistant ''Please TOGGLE SAFETY now'')))
       = context sample_assistant @ [Turn ''user'' ''Please TOGGLE SAFETY now'']"
    using th1 [THEN conjunct2, THEN conjunct2, THEN conjunct1] by simp
  have d: "snd (snd (handle_query sample_env sample_assistant ''how do I exit vim'')) = []"
    using th2 [THEN conjunct1] .
  have e: "fst (handle_query sample_env sample_assistant ''how do I exit vim'') = Inr ''EXIT_REQUEST''"
    using th2 [THEN conjunct2, THEN conjunct2, THEN conjunct2, THEN conjunct2]
    by (simp only: t2 if_False)
  have f: "context (fst (snd (handle_query sample_env sample_assistant ''how do I exit vim'')))
       = context sample_assistant @ [Turn ''user'' ''how do I exit vim'']"
    using th2 [THEN conjunct2, THEN conjunct2, THEN conjunct1] by simp
  have g: "safety_checks (fst (snd (handle_query sample_env sample_assistant ''how do I exit vim'')))"
    using th2 [THEN conjunct2, THEN conjunct1] t2(1) by simp
  let ?small = "sample_assistant\<lparr>context := [Turn ''system'' ''s'', Turn ''user'' ''a'']\<rparr>
                  \<lparr>config := JObj [(''context'', JObj [(''memory_size'', JInt 1)])]\<rparr>"
  have sm: "cfg (config ?small) ''context'' ''memory_size'' = Inr (JInt (int 1))"
    by (simp add: cfg_def)
  have sc: "context ?small = Turn ''system'' ''s'' # [Turn ''user'' ''a'']" by simp
  have one': "(1::nat) \<le> 1" by simp
  have h: "context (fst (snd (handle_query sample_env ?small ''quit'')))
       = [Turn ''system'' ''s'', Turn ''user'' ''quit'']"
    using special_request_frame [OF sm one' sc sp3, of sample_env,
        THEN conjunct2, THEN conjunct2, THEN conjunct2, THEN conjunct1]
    by simp
  show ?thesis using a b c d e f g h by blast
qed

text \<open>
  C10 as stated fails: with the default configuration and a full store, the exit request
  adds the user's turn and drops the oldest turn after the system turn.
\<close>

theorem exit_request_evicts:
  "special_request ''exit''
   \<and> cfg (config full_store) ''context'' ''memory_size'' = Inr (JInt 10)
   \<and> length (context full_store) = 11
   \<and> fst (handle_query sample_env full_store ''exit'') = Inr ''EXIT_REQUEST''
   \<and> length (context (fst (snd (handle_query sample_env full_store ''exit'')))) = 11
   \<and> context (fst (snd (handle_query sample_env full_store ''exit'')))
       \<noteq> context full_store @ [Turn ''user'' ''exit'']
   \<and> Turn ''user'' ''ask1'' \<in> set (context full_store)
   \<and> Turn ''user'' ''ask1''
       \<notin> set (context (fst (snd (handle_query sample_env full_store ''exit''))))
   \<and> last (context (fst (snd (handle_query sample_env full_store ''exit''))))
       = Turn ''user'' ''exit''"
  by code_simp

end
